theory Spec2Isabelle
  imports Complex_Main "HOL-Library.AList"
begin

section \<open>Python values and exceptions\<close>

text \<open>
  The engine receives its game data as \<open>Dict[str, Any]\<close>: the decoded JSON of an odds
  feed. A value is \<open>None\<close>, a number, a string, a list or a dictionary. Python's
  \<open>int\<close>, \<open>float\<close> and \<open>bool\<close> are all modelled by their numeric value in
  \<open>real\<close> (\<open>True == 1\<close> and \<open>1 == 1.0\<close> in Python, with equal hashes), so arithmetic
  is exact: rounding, infinities and NaN of IEEE floats are outside the model. A
  dictionary is an association list in insertion order; \<open>map_of\<close> reads it.
\<close>

datatype pyval =
    PNone
  | PNum real
  | PStr string
  | PList "pyval list"
  | PDict "(pyval \<times> pyval) list"

datatype exn =
    AttributeError
  | TypeError
  | ValueError
  | KeyError
  | ZeroDivisionError
  | StopIteration

definition ebind :: "exn + 'a \<Rightarrow> ('a \<Rightarrow> exn + 'b) \<Rightarrow> exn + 'b" where
  "ebind m f = (case m of Inl e \<Rightarrow> Inl e | Inr x \<Rightarrow> f x)"

text \<open>\<open>try: body  except Exception: return d\<close>\<close>

definition try_except :: "exn + 'a \<Rightarrow> 'a \<Rightarrow> exn + 'a" where
  "try_except body d = (case body of Inl e \<Rightarrow> Inr d | Inr r \<Rightarrow> Inr r)"

text \<open>A \<open>for\<close> loop that threads the loop's variables and stops at the first raise.\<close>

fun for_each :: "('s \<Rightarrow> 'a \<Rightarrow> exn + 's) \<Rightarrow> 'a list \<Rightarrow> 's \<Rightarrow> exn + 's" where
  "for_each f [] s = Inr s"
| "for_each f (x # xs) s = (case f s x of Inl e \<Rightarrow> Inl e | Inr s' \<Rightarrow> for_each f xs s')"

text \<open>\<open>x.get(k, d)\<close>: only a dictionary has the method.\<close>

fun py_get :: "pyval \<Rightarrow> string \<Rightarrow> pyval \<Rightarrow> exn + pyval" where
  "py_get (PDict kvs) k d = Inr (case map_of kvs (PStr k) of None \<Rightarrow> d | Some v \<Rightarrow> v)"
| "py_get _ k d = Inl AttributeError"

text \<open>\<open>x[k]\<close> with a string key: \<open>KeyError\<close> on a dictionary without it, \<open>TypeError\<close>
  on anything else (list and string indices must be integers).\<close>

fun py_subscript :: "pyval \<Rightarrow> string \<Rightarrow> exn + pyval" where
  "py_subscript (PDict kvs) k = (case map_of kvs (PStr k) of None \<Rightarrow> Inl KeyError | Some v \<Rightarrow> Inr v)"
| "py_subscript _ k = Inl TypeError"

text \<open>\<open>for v in x\<close>: a list gives its elements, a dictionary its keys, a string its
  characters.\<close>

fun py_iter :: "pyval \<Rightarrow> exn + pyval list" where
  "py_iter (PList xs) = Inr xs"
| "py_iter (PDict kvs) = Inr (map fst kvs)"
| "py_iter (PStr s) = Inr (map (\<lambda>c. PStr [c]) s)"
| "py_iter _ = Inl TypeError"

fun truthy :: "pyval \<Rightarrow> bool" where
  "truthy PNone = False"
| "truthy (PNum r) = (r \<noteq> 0)"
| "truthy (PStr s) = (s \<noteq> [])"
| "truthy (PList xs) = (xs \<noteq> [])"
| "truthy (PDict kvs) = (kvs \<noteq> [])"

text \<open>Lists and dictionaries cannot be dictionary keys or set elements.\<close>

fun hashable :: "pyval \<Rightarrow> bool" where
  "hashable (PList xs) = False"
| "hashable (PDict kvs) = False"
| "hashable _ = True"

section \<open>The arbitrage engine\<close>

datatype MarketType = MONEYLINE | SPREAD | TOTALS | CROSS_MARKET

text \<open>
  One entry of a best-odds dictionary: \<open>{"price": .., "bookmaker": ..}\<close>, with
  \<open>"point"\<close> for spreads only. The price is stored after the test \<open>price > 0\<close>
  succeeded, so it is a number.
\<close>

record odds_info =
  price :: real
  bookmaker :: pyval
  point :: "real option"

type_synonym best_odds_dict = "(pyval \<times> odds_info) list"

record ArbitrageOpportunity =
  game_id :: pyval
  home_team :: pyval
  away_team :: pyval
  sport_key :: pyval
  market_type :: MarketType
  profit_margin :: real
  total_implied_probability :: real
  best_odds :: best_odds_dict
  calculation_time :: string
  spread_value :: "real option"
  total_value :: "pyval option"
  correlation_risk :: "real option"
  confidence_score :: real

record CrossMarketOpportunity =
  cm_game_id :: pyval
  market_combination :: "string list"
  cm_profit_margin :: real
  cm_correlation_risk :: real
  selected_outcomes :: "(string \<times> string) list"
  bookmaker_distribution :: "(string \<times> real) list"
  true_probabilities :: "(string \<times> real) list option"

record EnhancedArbitrageEngine =
  min_profit_threshold :: real
  max_stake_percentage :: real
  enable_cross_market :: bool
  confidence_threshold :: real

text \<open>The constructor's defaults.\<close>

definition default_engine :: EnhancedArbitrageEngine where
  "default_engine =
     \<lparr>min_profit_threshold = 1, max_stake_percentage = 95 / 100,
      enable_cross_market = True, confidence_threshold = 7 / 10\<rparr>"

subsection \<open>\<open>_find_best_odds\<close>\<close>

text \<open>
  The innermost statement of the three nested loops, for one outcome's \<open>name\<close> and
  \<open>price\<close> under the bookmaker \<open>book_name\<close>:
  \<^verbatim>\<open>
  if team_name and price > 0:
      if team_name not in best_odds or price > best_odds[team_name]["price"]:
          best_odds[team_name] = {"price": price, "bookmaker": book_name}
  \<close>
  \<open>and\<close> short-circuits, so a falsy name never compares the price; comparing
  anything but a number with \<open>0\<close> raises \<open>TypeError\<close>, and so does looking an
  unhashable name up in the dictionary.
\<close>

definition keep_best :: "best_odds_dict \<Rightarrow> pyval \<times> pyval \<times> pyval \<Rightarrow> exn + best_odds_dict" where
  "keep_best best q =
     (case q of (team_name, pr, book_name) \<Rightarrow>
        if truthy team_name then
          (case pr of
             PNum p \<Rightarrow>
               if p > 0 then
                 if hashable team_name then
                   (case map_of best team_name of
                      None \<Rightarrow>
                        Inr (AList.update team_name
                               \<lparr>price = p, bookmaker = book_name, point = None\<rparr> best)
                    | Some cur \<Rightarrow>
                        if p > price cur
                        then Inr (AList.update team_name
                               \<lparr>price = p, bookmaker = book_name, point = None\<rparr> best)
                        else Inr best)
                 else Inl TypeError
               else Inr best
           | _ \<Rightarrow> Inl TypeError)
        else Inr best)"

definition outcome_step :: "pyval \<Rightarrow> best_odds_dict \<Rightarrow> pyval \<Rightarrow> exn + best_odds_dict" where
  "outcome_step book_name best outcome =
     ebind (py_get outcome ''name'' PNone) (\<lambda>team_name.
     ebind (py_get outcome ''price'' (PNum 0)) (\<lambda>pr.
       keep_best best (team_name, pr, book_name)))"

definition market_step :: "string \<Rightarrow> pyval \<Rightarrow> best_odds_dict \<Rightarrow> pyval \<Rightarrow> exn + best_odds_dict" where
  "market_step mtype bm best market =
     ebind (py_get market ''key'' PNone) (\<lambda>k.
       if k = PStr mtype then
         ebind (py_get bm ''key'' (PStr ''Unknown'')) (\<lambda>dflt.
         ebind (py_get bm ''title'' dflt) (\<lambda>book_name.
         ebind (py_get market ''outcomes'' (PList [])) (\<lambda>outs.
         ebind (py_iter outs) (\<lambda>os.
           for_each (outcome_step book_name) os best))))
       else Inr best)"

definition bookmaker_step :: "string \<Rightarrow> best_odds_dict \<Rightarrow> pyval \<Rightarrow> exn + best_odds_dict" where
  "bookmaker_step mtype best bm =
     ebind (py_get bm ''markets'' (PList [])) (\<lambda>mkts.
     ebind (py_iter mkts) (\<lambda>ms.
       for_each (market_step mtype bm) ms best))"

definition find_best_odds :: "pyval \<Rightarrow> string \<Rightarrow> exn + best_odds_dict" where
  "find_best_odds game_data mtype =
     ebind (py_get game_data ''bookmakers'' (PList [])) (\<lambda>bms.
     ebind (py_iter bms) (\<lambda>bs.
       for_each (bookmaker_step mtype) bs []))"

subsection \<open>Confidence score\<close>

definition bayesian_priors :: "(string \<times> real) list" where
  "bayesian_priors =
     [(''h2h_accuracy'', 85 / 100), (''spreads_accuracy'', 78 / 100),
      (''totals_accuracy'', 72 / 100)]"

definition market_correlations :: "((string \<times> string) \<times> real) list" where
  "market_correlations =
     [((''h2h'', ''spreads''), 82 / 100), ((''h2h'', ''totals''), 45 / 100),
      ((''spreads'', ''totals''), 38 / 100)]"

text \<open>\<open>numpy.std\<close>: the population standard deviation.\<close>

definition np_std :: "real list \<Rightarrow> real" where
  "np_std xs =
     (let n = real (length xs); mu = sum_list xs / n
      in sqrt (sum_list (map (\<lambda>x. (x - mu)\<^sup>2) xs) / n))"

text \<open>
  The body of \<open>_calculate_confidence_score\<close>. Building the set of bookmaker names
  raises \<open>TypeError\<close> on an unhashable name.
\<close>

definition confidence_body :: "best_odds_dict \<Rightarrow> string \<Rightarrow> exn + real" where
  "confidence_body best mtype =
     (let base_confidence =
            (case map_of bayesian_priors (mtype @ ''_accuracy'') of
               None \<Rightarrow> 8 / 10 | Some a \<Rightarrow> a)
      in if \<not> list_all (\<lambda>(k, info). hashable (bookmaker info)) best then Inl TypeError
         else
           let num_bookmakers = length (remdups (map (\<lambda>(k, info). bookmaker info) best));
               bookmaker_factor = min 1 (5 / 10 + real num_bookmakers * (1 / 10));
               odds_values = map (\<lambda>(k, info). price info) best;
               odds_std = (if length odds_values > 1 then np_std odds_values else 0);
               distribution_factor = min 1 (7 / 10 + odds_std * (1 / 10));
               confidence = base_confidence * bookmaker_factor * distribution_factor
           in Inr (min 1 (max 0 confidence)))"

definition calculate_confidence_score :: "best_odds_dict \<Rightarrow> string \<Rightarrow> exn + real" where
  "calculate_confidence_score best mtype = try_except (confidence_body best mtype) (5 / 10)"

subsection \<open>Single-market detection\<close>

text \<open>\<open>sum(1 / odds_info["price"] for odds_info in best_odds.values())\<close>\<close>

definition implied_total :: "best_odds_dict \<Rightarrow> exn + real" where
  "implied_total best =
     for_each (\<lambda>acc (k, info).
        if price info = 0 then Inl ZeroDivisionError else Inr (acc + 1 / price info)) best 0"

text \<open>The constructor call \<open>ArbitrageOpportunity(game_id=game_data.get("id", "unknown"), ...)\<close>;
  \<open>now\<close> is the clock's reading.\<close>

definition make_opportunity ::
  "pyval \<Rightarrow> MarketType \<Rightarrow> real \<Rightarrow> real \<Rightarrow> best_odds_dict \<Rightarrow> string \<Rightarrow>
   real option \<Rightarrow> pyval option \<Rightarrow> real \<Rightarrow> exn + ArbitrageOpportunity" where
  "make_opportunity game_data mt pm ti best now sv tv conf =
     ebind (py_get game_data ''id'' (PStr ''unknown'')) (\<lambda>gid.
     ebind (py_get game_data ''home_team'' (PStr ''Unknown'')) (\<lambda>home.
     ebind (py_get game_data ''away_team'' (PStr ''Unknown'')) (\<lambda>away.
     ebind (py_get game_data ''sport_key'' (PStr ''unknown'')) (\<lambda>sport.
       Inr \<lparr>game_id = gid, home_team = home, away_team = away, sport_key = sport,
            market_type = mt, profit_margin = pm, total_implied_probability = ti,
            best_odds = best, calculation_time = now, spread_value = sv,
            total_value = tv, correlation_risk = None, confidence_score = conf\<rparr>))))"

text \<open>
  The part the three detectors share, from the sum of implied probabilities on:
  the opportunity is appended when \<open>total_implied < 1.0\<close>, the margin reaches
  \<open>min_profit_threshold\<close> and the confidence reaches \<open>confidence_threshold\<close>.
\<close>

definition emit_if_arbitrage ::
  "EnhancedArbitrageEngine \<Rightarrow> string \<Rightarrow> pyval \<Rightarrow> string \<Rightarrow> MarketType \<Rightarrow>
   real option \<Rightarrow> pyval option \<Rightarrow> best_odds_dict \<Rightarrow> ArbitrageOpportunity list \<Rightarrow>
   exn + ArbitrageOpportunity list" where
  "emit_if_arbitrage eng now game_data mtype mt sv tv best opportunities =
     ebind (implied_total best) (\<lambda>total_implied.
       if total_implied < 1 then
         let profit_margin = (1 - total_implied) * 100 in
         if profit_margin \<ge> min_profit_threshold eng then
           ebind (calculate_confidence_score best mtype) (\<lambda>conf.
             if conf \<ge> confidence_threshold eng then
               ebind (make_opportunity game_data mt profit_margin total_implied best now sv tv conf)
                 (\<lambda>opportunity. Inr (opportunities @ [opportunity]))
             else Inr opportunities)
         else Inr opportunities
       else Inr opportunities)"

definition moneyline_body ::
  "EnhancedArbitrageEngine \<Rightarrow> string \<Rightarrow> pyval \<Rightarrow> exn + ArbitrageOpportunity list" where
  "moneyline_body eng now game_data =
     ebind (find_best_odds game_data ''h2h'') (\<lambda>best.
       if length best < 2 then Inr []
       else emit_if_arbitrage eng now game_data ''h2h'' MONEYLINE None None best [])"

definition detect_moneyline_arbitrage ::
  "EnhancedArbitrageEngine \<Rightarrow> string \<Rightarrow> pyval \<Rightarrow> exn + ArbitrageOpportunity list" where
  "detect_moneyline_arbitrage eng now game_data = try_except (moneyline_body eng now game_data) []"

subsection \<open>Spread and totals detection\<close>

text \<open>One element of a point-value group: \<open>{"outcome": outcome, "bookmaker": ..}\<close>.\<close>

record group_item =
  item_outcome :: pyval
  item_bookmaker :: pyval

text \<open>
  Python's \<open>str()\<close> and the format \<open>+.1f\<close> print floats; their output is a
  parameter of the model.
\<close>

record py_format =
  py_str :: "pyval \<Rightarrow> string"
  signed_1f :: "real \<Rightarrow> string"

fun py_abs :: "pyval \<Rightarrow> exn + real" where
  "py_abs (PNum r) = Inr \<bar>r\<bar>"
| "py_abs _ = Inl TypeError"

definition py_key :: "pyval \<Rightarrow> exn + pyval" where
  "py_key v = (if hashable v then Inr v else Inl TypeError)"

definition group_append :: "'k \<Rightarrow> group_item \<Rightarrow> ('k \<times> group_item list) list \<Rightarrow> ('k \<times> group_item list) list" where
  "group_append k item groups =
     (case map_of groups k of
        None \<Rightarrow> AList.update k [item] groups
      | Some items \<Rightarrow> AList.update k (items @ [item]) groups)"

text \<open>
  \<open>_group_spreads_by_point_value\<close> and \<open>_group_totals_by_point_value\<close> are the same
  three loops: they differ in the market key and in the group key, \<open>abs(point)\<close> for
  spreads and \<open>point\<close> itself for totals.
\<close>

definition group_by_point ::
  "string \<Rightarrow> (pyval \<Rightarrow> exn + 'k) \<Rightarrow> pyval \<Rightarrow> exn + ('k \<times> group_item list) list" where
  "group_by_point mkey keyf game_data =
     ebind (py_get game_data ''bookmakers'' (PList [])) (\<lambda>bms.
     ebind (py_iter bms) (\<lambda>bs.
       for_each (\<lambda>groups bm.
         ebind (py_get bm ''markets'' (PList [])) (\<lambda>mkts.
         ebind (py_iter mkts) (\<lambda>ms.
           for_each (\<lambda>groups market.
             ebind (py_get market ''key'' PNone) (\<lambda>k.
               if k = PStr mkey then
                 ebind (py_get market ''outcomes'' (PList [])) (\<lambda>outs.
                 ebind (py_iter outs) (\<lambda>os.
                   for_each (\<lambda>groups outcome.
                     ebind (py_get outcome ''point'' (PNum 0)) (\<lambda>pt.
                     ebind (keyf pt) (\<lambda>point_value.
                     ebind (py_get bm ''key'' PNone) (\<lambda>dflt.
                     ebind (py_get bm ''title'' dflt) (\<lambda>bk.
                       Inr (group_append point_value
                              \<lparr>item_outcome = outcome, item_bookmaker = bk\<rparr> groups))))))
                     os groups))
               else Inr groups))
             ms groups)))
         bs []))"

definition group_spreads_by_point_value :: "pyval \<Rightarrow> exn + (real \<times> group_item list) list" where
  "group_spreads_by_point_value = group_by_point ''spreads'' py_abs"

definition group_totals_by_point_value :: "pyval \<Rightarrow> exn + (pyval \<times> group_item list) list" where
  "group_totals_by_point_value = group_by_point ''totals'' py_key"

text \<open>\<open>if key not in best_odds or price > best_odds[key]["price"]: best_odds[key] = info\<close>\<close>

definition store_if_better :: "pyval \<Rightarrow> odds_info \<Rightarrow> best_odds_dict \<Rightarrow> best_odds_dict" where
  "store_if_better key info best =
     (case map_of best key of
        None \<Rightarrow> AList.update key info best
      | Some cur \<Rightarrow> if price info > price cur then AList.update key info best else best)"

text \<open>\<open>f"{point:+.1f}"\<close> formats a number only.\<close>

fun format_point :: "py_format \<Rightarrow> pyval \<Rightarrow> exn + string" where
  "format_point fmt (PNum x) = Inr (signed_1f fmt x)"
| "format_point fmt (PStr s) = Inl ValueError"
| "format_point fmt _ = Inl TypeError"

definition find_best_spread_odds :: "py_format \<Rightarrow> group_item list \<Rightarrow> exn + best_odds_dict" where
  "find_best_spread_odds fmt spread_data =
     for_each (\<lambda>best item.
       ebind (py_get (item_outcome item) ''name'' PNone) (\<lambda>team_name.
       ebind (py_get (item_outcome item) ''price'' (PNum 0)) (\<lambda>pr.
       ebind (py_get (item_outcome item) ''point'' (PNum 0)) (\<lambda>pt.
       ebind (format_point fmt pt) (\<lambda>pts.
         (case (pr, pt) of
            (PNum p, PNum x) \<Rightarrow>
              if p > 0 then
                Inr (store_if_better (PStr (py_str fmt team_name @ '' '' @ pts))
                       \<lparr>price = p, bookmaker = item_bookmaker item, point = Some x\<rparr> best)
              else Inr best
          | _ \<Rightarrow> Inl TypeError))))))
       spread_data []"

definition find_best_totals_odds :: "group_item list \<Rightarrow> exn + best_odds_dict" where
  "find_best_totals_odds totals_data =
     for_each (\<lambda>best item.
       ebind (py_get (item_outcome item) ''name'' PNone) (\<lambda>outcome_name.
       ebind (py_get (item_outcome item) ''price'' (PNum 0)) (\<lambda>pr.
         (case pr of
            PNum p \<Rightarrow>
              if p > 0 then
                if hashable outcome_name then
                  Inr (store_if_better outcome_name
                         \<lparr>price = p, bookmaker = item_bookmaker item, point = None\<rparr> best)
                else Inl TypeError
              else Inr best
          | _ \<Rightarrow> Inl TypeError))))
       totals_data []"

definition spread_body ::
  "py_format \<Rightarrow> EnhancedArbitrageEngine \<Rightarrow> string \<Rightarrow> pyval \<Rightarrow> exn + ArbitrageOpportunity list" where
  "spread_body fmt eng now game_data =
     ebind (group_spreads_by_point_value game_data) (\<lambda>spread_groups.
       for_each (\<lambda>opportunities (spread_value, spread_odds).
         ebind (find_best_spread_odds fmt spread_odds) (\<lambda>best.
           if length best < 2 then Inr opportunities
           else emit_if_arbitrage eng now game_data ''spreads'' SPREAD
                  (Some spread_value) None best opportunities))
         spread_groups [])"

definition detect_spread_arbitrage ::
  "py_format \<Rightarrow> EnhancedArbitrageEngine \<Rightarrow> string \<Rightarrow> pyval \<Rightarrow> exn + ArbitrageOpportunity list" where
  "detect_spread_arbitrage fmt eng now game_data =
     try_except (spread_body fmt eng now game_data) []"

definition totals_body ::
  "EnhancedArbitrageEngine \<Rightarrow> string \<Rightarrow> pyval \<Rightarrow> exn + ArbitrageOpportunity list" where
  "totals_body eng now game_data =
     ebind (group_totals_by_point_value game_data) (\<lambda>totals_groups.
       for_each (\<lambda>opportunities (total_val, total_odds).
         ebind (find_best_totals_odds total_odds) (\<lambda>best.
           if length best < 2 then Inr opportunities
           else emit_if_arbitrage eng now game_data ''totals'' TOTALS
                  None (Some total_val) best opportunities))
         totals_groups [])"

definition detect_totals_arbitrage ::
  "EnhancedArbitrageEngine \<Rightarrow> string \<Rightarrow> pyval \<Rightarrow> exn + ArbitrageOpportunity list" where
  "detect_totals_arbitrage eng now game_data = try_except (totals_body eng now game_data) []"

subsection \<open>Cross-market detection\<close>

text \<open>\<open>_get_available_markets\<close> collects the market keys in a set.\<close>

definition get_available_markets :: "pyval \<Rightarrow> exn + pyval list" where
  "get_available_markets game_data =
     ebind (py_get game_data ''bookmakers'' (PList [])) (\<lambda>bms.
     ebind (py_iter bms) (\<lambda>bs.
       for_each (\<lambda>markets bm.
         ebind (py_get bm ''markets'' (PList [])) (\<lambda>mkts.
         ebind (py_iter mkts) (\<lambda>ms.
           for_each (\<lambda>markets market.
             ebind (py_get market ''key'' PNone) (\<lambda>k.
               if hashable k then Inr (List.insert k markets) else Inl TypeError))
             ms markets)))
         bs []))"

definition analyze_cross_market_combination ::
  "pyval \<Rightarrow> string \<times> string \<Rightarrow> exn + CrossMarketOpportunity list" where
  "analyze_cross_market_combination game_data market_combo =
     try_except
       (let opportunities = [];
            correlation = (case map_of market_correlations market_combo of
                             None \<Rightarrow> 5 / 10 | Some c \<Rightarrow> c)
        in if correlation > 9 / 10 then Inr opportunities
           else
             ebind (find_best_odds game_data (fst market_combo)) (\<lambda>market1_odds.
             ebind (find_best_odds game_data (snd market_combo)) (\<lambda>market2_odds.
               if market1_odds = [] \<or> market2_odds = [] then Inr opportunities
               else Inr opportunities)))
       []"

definition market_combinations :: "(string \<times> string) list" where
  "market_combinations =
     [(''h2h'', ''spreads''), (''h2h'', ''totals''), (''spreads'', ''totals'')]"

definition detect_cross_market_arbitrage ::
  "EnhancedArbitrageEngine \<Rightarrow> pyval \<Rightarrow> exn + CrossMarketOpportunity list" where
  "detect_cross_market_arbitrage eng game_data =
     (if \<not> enable_cross_market eng then Inr []
      else
        try_except
          (ebind (get_available_markets game_data) (\<lambda>available_markets.
             for_each (\<lambda>opportunities market_combo.
               if PStr (fst market_combo) \<in> set available_markets \<and>
                  PStr (snd market_combo) \<in> set available_markets
               then ebind (analyze_cross_market_combination game_data market_combo)
                      (\<lambda>cross_opportunities. Inr (opportunities @ cross_opportunities))
               else Inr opportunities)
               market_combinations []))
          [])"

subsection \<open>\<open>calculate_optimal_stakes\<close>\<close>

fun py_items :: "pyval \<Rightarrow> exn + (pyval \<times> pyval) list" where
  "py_items (PDict kvs) = Inr kvs"
| "py_items _ = Inl AttributeError"

text \<open>\<open>1 / x\<close>\<close>

fun py_recip :: "pyval \<Rightarrow> exn + real" where
  "py_recip (PNum r) = (if r = 0 then Inl ZeroDivisionError else Inr (1 / r))"
| "py_recip _ = Inl TypeError"

definition stakes_body ::
  "EnhancedArbitrageEngine \<Rightarrow> pyval \<Rightarrow> real \<Rightarrow> exn + (pyval \<times> real) list" where
  "stakes_body eng opportunity_data bankroll =
     ebind (py_items opportunity_data) (\<lambda>items.
     ebind (for_each (\<lambda>acc (outcome, info).
              ebind (py_subscript info ''price'') (\<lambda>pr.
              ebind (py_recip pr) (\<lambda>ip. Inr (AList.update outcome ip acc))))
              items []) (\<lambda>implied_probs.
       let total_implied = sum_list (map snd implied_probs);
           max_investment = bankroll * max_stake_percentage eng;
           optimal_investment = max_investment * total_implied
       in
     ebind (for_each (\<lambda>stakes (outcome, implied_prob).
              if total_implied = 0 then Inl ZeroDivisionError
              else Inr (AList.update outcome
                          (optimal_investment * (implied_prob / total_implied)) stakes))
              implied_probs []) (\<lambda>stakes.
       let total_investment = sum_list (map snd stakes) in
       (case items of
          [] \<Rightarrow> Inl StopIteration
        | (sample_outcome, sample_info) # rest \<Rightarrow>
            ebind (py_subscript sample_info ''price'') (\<lambda>sample_odds.
              (case map_of stakes sample_outcome of
                 None \<Rightarrow> Inl KeyError
               | Some st \<Rightarrow>
                   (case sample_odds of
                      PNum so \<Rightarrow>
                        let guaranteed_return = st * so;
                            guaranteed_profit = guaranteed_return - total_investment
                        in if total_investment = 0 then Inl ZeroDivisionError
                           else Inr (AList.update (PStr ''profit_percentage'')
                                       (guaranteed_profit / total_investment * 100)
                                    (AList.update (PStr ''guaranteed_profit'') guaranteed_profit
                                    (AList.update (PStr ''total_investment'') total_investment
                                       stakes)))
                    | _ \<Rightarrow> Inl TypeError)))))))"

definition calculate_optimal_stakes ::
  "EnhancedArbitrageEngine \<Rightarrow> pyval \<Rightarrow> real \<Rightarrow> exn + (pyval \<times> real) list" where
  "calculate_optimal_stakes eng opportunity_data bankroll =
     try_except (stakes_body eng opportunity_data bankroll) []"

section \<open>The parallel processor\<close>

subsection \<open>\<open>APIQuotaManager\<close>\<close>

text \<open>The clock is read as a day number and an hour of the day.\<close>

record APIQuotaManager =
  daily_limit :: int
  hourly_limit :: int
  per_request_cost :: int
  daily_usage :: int
  hourly_usage :: int
  current_hour :: nat
  current_day :: nat

datatype quota_error = DailyQuotaExceeded | HourlyQuotaExceeded

text \<open>\<open>cost = cost or self.per_request_cost\<close>: an omitted cost and a cost of zero are both
  falsy.\<close>

definition effective_cost :: "APIQuotaManager \<Rightarrow> int option \<Rightarrow> int" where
  "effective_cost q cost =
     (case cost of None \<Rightarrow> per_request_cost q
      | Some c \<Rightarrow> if c \<noteq> 0 then c else per_request_cost q)"

text \<open>The two resets at the head of \<open>consume_quota\<close>.\<close>

definition reset_windows :: "APIQuotaManager \<Rightarrow> nat \<times> nat \<Rightarrow> APIQuotaManager" where
  "reset_windows q now =
     (case now of (day, hour) \<Rightarrow>
        let q1 = (if hour \<noteq> current_hour q
                  then q\<lparr>hourly_usage := 0, current_hour := hour\<rparr> else q);
            q2 = (if day \<noteq> current_day q1
                  then q1\<lparr>daily_usage := 0, current_day := day\<rparr> else q1)
        in q2)"

text \<open>
  \<open>consume_quota\<close> returns the exception it raised, if any, and the manager as the
  call left it: the resets happen before the checks, so a call that raises has
  still reset a window that rolled over.
\<close>

definition consume_quota ::
  "APIQuotaManager \<Rightarrow> int option \<Rightarrow> nat \<times> nat \<Rightarrow> quota_error option \<times> APIQuotaManager" where
  "consume_quota q cost now =
     (let c = effective_cost q cost;
          q2 = reset_windows q now
      in if daily_usage q2 + c > daily_limit q2 then (Some DailyQuotaExceeded, q2)
         else if hourly_usage q2 + c > hourly_limit q2 then (Some HourlyQuotaExceeded, q2)
         else (None, q2\<lparr>daily_usage := daily_usage q2 + c,
                         hourly_usage := hourly_usage q2 + c\<rparr>))"

text \<open>A sequence of calls, whatever each one raised.\<close>

fun consume_all :: "APIQuotaManager \<Rightarrow> (int option \<times> (nat \<times> nat)) list \<Rightarrow> APIQuotaManager" where
  "consume_all q [] = q"
| "consume_all q ((cost, now) # calls) = consume_all (snd (consume_quota q cost now)) calls"

text \<open>The constructor, at the clock's reading \<open>now\<close>.\<close>

definition new_quota_manager :: "int \<Rightarrow> int \<Rightarrow> int \<Rightarrow> nat \<times> nat \<Rightarrow> APIQuotaManager" where
  "new_quota_manager dl hl prc now =
     \<lparr>daily_limit = dl, hourly_limit = hl, per_request_cost = prc,
      daily_usage = 0, hourly_usage = 0, current_hour = snd now, current_day = fst now\<rparr>"

subsection \<open>\<open>CircuitBreaker\<close>\<close>

record CircuitBreaker =
  failure_threshold :: int
  recovery_timeout :: real
  failure_counts :: "string \<rightharpoonup> int"
  last_failure_times :: "string \<rightharpoonup> real"
  open_circuits :: "string set"

definition new_circuit_breaker :: "int \<Rightarrow> real \<Rightarrow> CircuitBreaker" where
  "new_circuit_breaker threshold timeout =
     \<lparr>failure_threshold = threshold, recovery_timeout = timeout,
      failure_counts = Map.empty, last_failure_times = Map.empty, open_circuits = {}\<rparr>"

definition record_failure :: "CircuitBreaker \<Rightarrow> string \<Rightarrow> real \<Rightarrow> CircuitBreaker" where
  "record_failure cb service_name now =
     (let n = (case failure_counts cb service_name of None \<Rightarrow> 0 | Some k \<Rightarrow> k) + 1;
          cb1 = cb\<lparr>failure_counts := (failure_counts cb)(service_name \<mapsto> n),
                   last_failure_times := (last_failure_times cb)(service_name \<mapsto> now)\<rparr>
      in if n \<ge> failure_threshold cb1
         then cb1\<lparr>open_circuits := insert service_name (open_circuits cb1)\<rparr>
         else cb1)"

definition record_success :: "CircuitBreaker \<Rightarrow> string \<Rightarrow> CircuitBreaker" where
  "record_success cb service_name =
     cb\<lparr>failure_counts := (failure_counts cb)(service_name \<mapsto> 0),
        open_circuits := open_circuits cb - {service_name}\<rparr>"

text \<open>\<open>is_open\<close> returns its answer and the breaker as the call left it.\<close>

definition is_open :: "CircuitBreaker \<Rightarrow> string \<Rightarrow> real \<Rightarrow> bool \<times> CircuitBreaker" where
  "is_open cb service_name now =
     (if service_name \<notin> open_circuits cb then (False, cb)
      else
        let last_failure = (case last_failure_times cb service_name of
                              None \<Rightarrow> 0 | Some t \<Rightarrow> t)
        in if now - last_failure > recovery_timeout cb
           then (False, cb\<lparr>open_circuits := open_circuits cb - {service_name},
                           failure_counts := (failure_counts cb)(service_name \<mapsto> 0)\<rparr>)
           else (True, cb))"

subsection \<open>\<open>fetch_multiple_sports_concurrent\<close>\<close>

text \<open>
  Where each task \<open>fetch_single_sport(sport)\<close> stands when \<open>asyncio.wait_for\<close> stops
  waiting: it has returned \<open>(sport_key, result)\<close>, with \<open>result = None\<close> after an
  error it handled or an open circuit, or it is still running at the deadline.
\<close>

datatype task_state = Returned "pyval option" | Running

text \<open>\<open>asyncio.wait_for(asyncio.gather(*tasks), timeout)\<close> gives the list of all the
  tasks' results, or raises \<open>TimeoutError\<close> when one of them is not done in time.\<close>

fun gather_before_timeout :: "(string \<times> task_state) list \<Rightarrow> (string \<times> pyval option) list option" where
  "gather_before_timeout [] = Some []"
| "gather_before_timeout ((sport, Running) # tasks) = None"
| "gather_before_timeout ((sport, Returned r) # tasks) =
     (case gather_before_timeout tasks of
        None \<Rightarrow> None
      | Some rs \<Rightarrow> Some ((sport, r) # rs))"

text \<open>The results dictionary is filled inside the \<open>try\<close>, after the wait; the handler
  of \<open>TimeoutError\<close> only logs.\<close>

definition fetch_multiple_sports_concurrent :: "(string \<times> task_state) list \<Rightarrow> (string \<times> pyval) list" where
  "fetch_multiple_sports_concurrent tasks =
     (case gather_before_timeout tasks of
        None \<Rightarrow> []
      | Some completed_tasks \<Rightarrow>
          fold (\<lambda>(sport, result) results.
                  case result of None \<Rightarrow> results
                  | Some r \<Rightarrow> AList.update sport r results)
               completed_tasks [])"

subsection \<open>\<open>_detect_game_arbitrage\<close>\<close>

text \<open>
  The four arguments are what the engine's four detectors returned or raised, in the
  order of the calls. The list \<open>opportunities\<close> is extended after each of the first
  three; an exception ends the \<open>try\<close> and the list built so far is returned. The
  cross-market result is bound to a variable that is never read.
\<close>

definition detect_game_arbitrage_from ::
  "exn + ArbitrageOpportunity list \<Rightarrow> exn + ArbitrageOpportunity list \<Rightarrow>
   exn + ArbitrageOpportunity list \<Rightarrow> exn + CrossMarketOpportunity list \<Rightarrow>
   ArbitrageOpportunity list" where
  "detect_game_arbitrage_from ml sp tot cross =
     (case ml of
        Inl e \<Rightarrow> []
      | Inr ml_opportunities \<Rightarrow>
          (case sp of
             Inl e \<Rightarrow> ml_opportunities
           | Inr spread_opportunities \<Rightarrow>
               (case tot of
                  Inl e \<Rightarrow> ml_opportunities @ spread_opportunities
                | Inr totals_opportunities \<Rightarrow>
                    (case cross of
                       Inl e \<Rightarrow> ml_opportunities @ spread_opportunities @ totals_opportunities
                     | Inr cross_opportunities \<Rightarrow>
                         ml_opportunities @ spread_opportunities @ totals_opportunities))))"

definition detect_game_arbitrage ::
  "py_format \<Rightarrow> EnhancedArbitrageEngine \<Rightarrow> string \<Rightarrow> pyval \<Rightarrow> ArbitrageOpportunity list" where
  "detect_game_arbitrage fmt eng now game_data =
     detect_game_arbitrage_from
       (detect_moneyline_arbitrage eng now game_data)
       (detect_spread_arbitrage fmt eng now game_data)
       (detect_totals_arbitrage eng now game_data)
       (detect_cross_market_arbitrage eng game_data)"

section \<open>The cross-market analyzer's risk assessment\<close>

record RiskAssessment =
  overall_risk :: real
  ra_correlation_risk :: real
  bookmaker_risk :: real
  market_risk :: real
  recommended_stake_percentage :: real
  risk_factors :: "string list"

text \<open>
  Python's floats are IEEE doubles. Every finite double is a real number and
  comparisons of finite doubles are exact, but a decimal literal, a sum and a product
  are each rounded to a double. The three roundings are a parameter of the assessor's model: \<open>fround\<close> reads
  a literal, \<open>fadd\<close> and \<open>fmul\<close> are the float sum and product. What is proved of the
  assessor holds for every such arithmetic.
\<close>

record float_arith =
  fround :: "real \<Rightarrow> real"
  fadd :: "real \<Rightarrow> real \<Rightarrow> real"
  fmul :: "real \<Rightarrow> real \<Rightarrow> real"

text \<open>The arithmetic that does not round.\<close>

definition exact_arith :: float_arith where
  "exact_arith = \<lparr>fround = (\<lambda>x. x), fadd = (\<lambda>x y. x + y), fmul = (\<lambda>x y. x * y)\<rparr>"

text \<open>\<open>max(values)\<close> raises \<open>ValueError\<close> on an empty sequence.\<close>

fun py_max :: "real list \<Rightarrow> exn + real" where
  "py_max [] = Inl ValueError"
| "py_max (x # xs) = Inr (fold max xs x)"

text \<open>
  The \<open>try\<close> block of \<open>assess_cross_market_risk\<close>, on a \<open>CrossMarketOpportunity\<close> whose
  fields have their declared types. \<open>0.1 * len(..)\<close> multiplies by the length as a
  float, which is exact.
\<close>

definition risk_body :: "float_arith \<Rightarrow> CrossMarketOpportunity \<Rightarrow> exn + RiskAssessment" where
  "risk_body ar opportunity =
     (let correlation = cm_correlation_risk opportunity;
          factors1 = (if correlation > fround ar (8 / 10) then [''High market correlation'']
                      else if correlation > fround ar (6 / 10)
                      then [''Moderate market correlation'']
                      else []);
          book_distribution = bookmaker_distribution opportunity
      in
      ebind (if length book_distribution < 2
             then Inr (fround ar (5 / 10), factors1 @ [''Single bookmaker exposure''])
             else
               ebind (py_max (map snd book_distribution)) (\<lambda>max_exposure.
                 if max_exposure > fround ar (8 / 10)
                 then Inr (fround ar (4 / 10), factors1 @ [''High bookmaker concentration''])
                 else if max_exposure > fround ar (6 / 10)
                 then Inr (fround ar (2 / 10), factors1 @ [''Moderate bookmaker concentration''])
                 else Inr (fround ar 0, factors1)))
        (\<lambda>(book_risk, factors2).
           let mkt_risk = fmul ar (fround ar (1 / 10))
                            (real (length (market_combination opportunity)));
               factors3 = (if length (market_combination opportunity) > 2
                           then factors2 @ [''Multi-market complexity''] else factors2);
               overall = fadd ar
                           (fadd ar (fmul ar correlation (fround ar (6 / 10)))
                                    (fmul ar book_risk (fround ar (3 / 10))))
                           (fmul ar mkt_risk (fround ar (1 / 10)));
               recommended_stake =
                 (if overall < fround ar (2 / 10) then fround ar (1 / 10)
                  else if overall < fround ar (5 / 10) then fround ar (5 / 100)
                  else fround ar (2 / 100))
           in Inr \<lparr>overall_risk = overall, ra_correlation_risk = correlation,
                    bookmaker_risk = book_risk, market_risk = mkt_risk,
                    recommended_stake_percentage = recommended_stake,
                    risk_factors = factors3\<rparr>))"

text \<open>The handler returns a fixed, conservative assessment.\<close>

definition assess_cross_market_risk ::
  "float_arith \<Rightarrow> CrossMarketOpportunity \<Rightarrow> exn + RiskAssessment" where
  "assess_cross_market_risk ar opportunity =
     try_except (risk_body ar opportunity)
       \<lparr>overall_risk = fround ar (8 / 10), ra_correlation_risk = fround ar (8 / 10),
        bookmaker_risk = fround ar (5 / 10), market_risk = fround ar (3 / 10),
        recommended_stake_percentage = fround ar (1 / 100),
        risk_factors = [''Risk calculation error'']\<rparr>"

section \<open>Notions used to state the properties\<close>

subsection \<open>The quotes of a market, in the order the loops visit them\<close>

text \<open>
  \<open>market_quotes\<close> runs the three loops of \<open>_find_best_odds\<close> and, instead of
  updating the dictionary, lists what the innermost statement is given: the outcome's
  \<open>name\<close> (\<open>None\<close> when absent), its \<open>price\<close> (\<open>0\<close> when absent) and the bookmaker's
  name.
\<close>

type_synonym quote = "pyval \<times> pyval \<times> pyval"

definition outcome_quote :: "pyval \<Rightarrow> quote list \<Rightarrow> pyval \<Rightarrow> exn + quote list" where
  "outcome_quote book_name acc outcome =
     ebind (py_get outcome ''name'' PNone) (\<lambda>team_name.
     ebind (py_get outcome ''price'' (PNum 0)) (\<lambda>pr.
       Inr (acc @ [(team_name, pr, book_name)])))"

definition market_quote :: "string \<Rightarrow> pyval \<Rightarrow> quote list \<Rightarrow> pyval \<Rightarrow> exn + quote list" where
  "market_quote mtype bm acc market =
     ebind (py_get market ''key'' PNone) (\<lambda>k.
       if k = PStr mtype then
         ebind (py_get bm ''key'' (PStr ''Unknown'')) (\<lambda>dflt.
         ebind (py_get bm ''title'' dflt) (\<lambda>book_name.
         ebind (py_get market ''outcomes'' (PList [])) (\<lambda>outs.
         ebind (py_iter outs) (\<lambda>os.
           for_each (outcome_quote book_name) os acc))))
       else Inr acc)"

definition bookmaker_quote :: "string \<Rightarrow> quote list \<Rightarrow> pyval \<Rightarrow> exn + quote list" where
  "bookmaker_quote mtype acc bm =
     ebind (py_get bm ''markets'' (PList [])) (\<lambda>mkts.
     ebind (py_iter mkts) (\<lambda>ms.
       for_each (market_quote mtype bm) ms acc))"

definition market_quotes :: "pyval \<Rightarrow> string \<Rightarrow> exn + quote list" where
  "market_quotes game_data mtype =
     ebind (py_get game_data ''bookmakers'' (PList [])) (\<lambda>bms.
     ebind (py_iter bms) (\<lambda>bs.
       for_each (bookmaker_quote mtype) bs []))"

text \<open>The positive prices quoted for the outcome \<open>n\<close>, each with its bookmaker, in the
  order seen.\<close>

definition offers :: "pyval \<Rightarrow> quote list \<Rightarrow> (real \<times> pyval) list" where
  "offers n qs =
     concat (map (\<lambda>(n', pr, b).
               case pr of PNum p \<Rightarrow> if n' = n \<and> p > 0 then [(p, b)] else [] | _ \<Rightarrow> []) qs)"

text \<open>
  \<open>best_for n qs r\<close>: the dictionary's entry \<open>r\<close> for \<open>n\<close> is the first of the highest
  offers for \<open>n\<close>. Every offer before it is strictly lower, every offer after it is
  lower or equal. There is no entry when \<open>n\<close> is falsy or has no offer.
\<close>

definition best_for :: "pyval \<Rightarrow> quote list \<Rightarrow> odds_info option \<Rightarrow> bool" where
  "best_for n qs r =
     (case r of
        None \<Rightarrow> \<not> truthy n \<or> offers n qs = []
      | Some info \<Rightarrow>
          truthy n \<and> point info = None \<and>
          (\<exists>pre post. offers n qs = pre @ (price info, bookmaker info) # post \<and>
             (\<forall>(p, b) \<in> set pre. p < price info) \<and>
             (\<forall>(p, b) \<in> set post. p \<le> price info)))"

subsection \<open>Quotes that the loops accept, and well-formed game data\<close>

text \<open>
  \<open>keep_best\<close> raises on a quote whose name is truthy and whose price is not a number
  (the comparison \<open>price > 0\<close> of a string, a list, a dictionary or \<open>None\<close> with \<open>0\<close>
  is a \<open>TypeError\<close>), and on a positive price under an unhashable name. A quote is
  clean when neither happens.

  Game data is well formed for a market type when it is a dictionary whose
  \<open>bookmakers\<close>, if present, is a list of dictionaries, the \<open>markets\<close> of each, if
  present, a list of dictionaries, and the \<open>outcomes\<close> of each market of that type, if
  present, a list of dictionaries whose \<open>name\<close> is a string or absent and whose \<open>price\<close>
  is a number or absent.
\<close>

definition clean_quote :: "quote \<Rightarrow> bool" where
  "clean_quote q =
     (case q of (n, pr, b) \<Rightarrow>
        truthy n \<longrightarrow> (case pr of PNum p \<Rightarrow> p > 0 \<longrightarrow> hashable n | _ \<Rightarrow> False))"

fun is_name :: "pyval \<Rightarrow> bool" where
  "is_name (PStr s) = True"
| "is_name PNone = True"
| "is_name _ = False"

fun is_number :: "pyval \<Rightarrow> bool" where
  "is_number (PNum r) = True"
| "is_number _ = False"

fun wf_outcome :: "pyval \<Rightarrow> bool" where
  "wf_outcome (PDict kvs) =
     (is_name (case map_of kvs (PStr ''name'') of None \<Rightarrow> PNone | Some v \<Rightarrow> v) \<and>
      is_number (case map_of kvs (PStr ''price'') of None \<Rightarrow> PNum 0 | Some v \<Rightarrow> v))"
| "wf_outcome _ = False"

fun wf_market :: "string \<Rightarrow> pyval \<Rightarrow> bool" where
  "wf_market mtype (PDict kvs) =
     (map_of kvs (PStr ''key'') = Some (PStr mtype) \<longrightarrow>
        (case map_of kvs (PStr ''outcomes'') of
           None \<Rightarrow> True
         | Some (PList os) \<Rightarrow> list_all wf_outcome os
         | Some _ \<Rightarrow> False))"
| "wf_market mtype _ = False"

fun wf_bookmaker :: "string \<Rightarrow> pyval \<Rightarrow> bool" where
  "wf_bookmaker mtype (PDict kvs) =
     (case map_of kvs (PStr ''markets'') of
        None \<Rightarrow> True
      | Some (PList ms) \<Rightarrow> list_all (wf_market mtype) ms
      | Some _ \<Rightarrow> False)"
| "wf_bookmaker mtype _ = False"

fun wf_game :: "string \<Rightarrow> pyval \<Rightarrow> bool" where
  "wf_game mtype (PDict kvs) =
     (case map_of kvs (PStr ''bookmakers'') of
        None \<Rightarrow> True
      | Some (PList bs) \<Rightarrow> list_all (wf_bookmaker mtype) bs
      | Some _ \<Rightarrow> False)"
| "wf_game mtype _ = False"

subsection \<open>Example data\<close>

definition mk_outcome :: "string \<Rightarrow> real \<Rightarrow> pyval" where
  "mk_outcome name p = PDict [(PStr ''name'', PStr name), (PStr ''price'', PNum p)]"

definition mk_market :: "string \<Rightarrow> pyval list \<Rightarrow> pyval" where
  "mk_market k outs = PDict [(PStr ''key'', PStr k), (PStr ''outcomes'', PList outs)]"

definition mk_bookmaker :: "string \<Rightarrow> string \<Rightarrow> pyval list \<Rightarrow> pyval" where
  "mk_bookmaker k title mkts =
     PDict [(PStr ''key'', PStr k), (PStr ''title'', PStr title), (PStr ''markets'', PList mkts)]"

definition mk_game :: "string \<Rightarrow> pyval list \<Rightarrow> pyval" where
  "mk_game gid bms =
     PDict [(PStr ''id'', PStr gid), (PStr ''home_team'', PStr ''TeamX''),
            (PStr ''away_team'', PStr ''TeamY''), (PStr ''sport_key'', PStr ''basketball_wnba''),
            (PStr ''bookmakers'', PList bms)]"


text \<open>Source B repeats the 2.20 of Source A for TeamX and raises TeamY from 1.50 to
  3.00; Source C is lower for TeamX and has no price for TeamY.\<close>

definition rising_game :: pyval where
  "rising_game =
     mk_game ''g2''
       [mk_bookmaker ''a'' ''Source A''
          [mk_market ''h2h'' [mk_outcome ''TeamX'' (22 / 10), mk_outcome ''TeamY'' (15 / 10)]],
        mk_bookmaker ''b'' ''Source B''
          [mk_market ''h2h'' [mk_outcome ''TeamX'' (22 / 10), mk_outcome ''TeamY'' 3]],
        mk_bookmaker ''c'' ''Source C''
          [mk_market ''h2h''
             [mk_outcome ''TeamX'' 2, PDict [(PStr ''name'', PStr ''TeamY'')]]]]"

definition rising_quotes :: "quote list" where
  "rising_quotes =
     [(PStr ''TeamX'', PNum (22 / 10), PStr ''Source A''),
      (PStr ''TeamY'', PNum (15 / 10), PStr ''Source A''),
      (PStr ''TeamX'', PNum (22 / 10), PStr ''Source B''),
      (PStr ''TeamY'', PNum 3, PStr ''Source B''),
      (PStr ''TeamX'', PNum 2, PStr ''Source C''),
      (PStr ''TeamY'', PNum 0, PStr ''Source C'')]"

definition rising_best_odds :: best_odds_dict where
  "rising_best_odds =
     [(PStr ''TeamX'', \<lparr>price = 22 / 10, bookmaker = PStr ''Source A'', point = None\<rparr>),
      (PStr ''TeamY'', \<lparr>price = 3, bookmaker = PStr ''Source B'', point = None\<rparr>)]"


subsection \<open>Quota and circuit states\<close>

definition within_limits :: "APIQuotaManager \<Rightarrow> bool" where
  "within_limits q \<longleftrightarrow> daily_usage q \<le> daily_limit q \<and> hourly_usage q \<le> hourly_limit q"

text \<open>The clock still reads the day and the hour the manager has stored.\<close>

definition same_window :: "APIQuotaManager \<Rightarrow> nat \<times> nat \<Rightarrow> bool" where
  "same_window q now \<longleftrightarrow> now = (current_day q, current_hour q)"

text \<open>A manager whose daily budget of 1000 is used up, 50 of it in the current hour.\<close>

definition exhausted_quota :: APIQuotaManager where
  "exhausted_quota =
     \<lparr>daily_limit = 1000, hourly_limit = 100, per_request_cost = 1,
      daily_usage = 1000, hourly_usage = 50, current_hour = 10, current_day = 0\<rparr>"

text \<open>A breaker with the default threshold 5 and timeout 60 after five failures of one
  service, the last at time 4.\<close>

definition tripped_breaker :: CircuitBreaker where
  "tripped_breaker =
     fold (\<lambda>t cb. record_failure cb ''odds_api_wnba'' t) [0, 1, 2, 3, 4]
       (new_circuit_breaker 5 60)"

text \<open>The breaker with the service's circuit closed and its failure count at zero.\<close>

definition closed_and_reset :: "CircuitBreaker \<Rightarrow> string \<Rightarrow> CircuitBreaker" where
  "closed_and_reset cb service_name =
     cb\<lparr>open_circuits := open_circuits cb - {service_name},
        failure_counts := (failure_counts cb)(service_name \<mapsto> 0)\<rparr>"

text \<open>A run of consecutive failures of one service, recorded at the given times.\<close>

definition record_failures :: "CircuitBreaker \<Rightarrow> string \<Rightarrow> real list \<Rightarrow> CircuitBreaker" where
  "record_failures cb service_name stamps =
     fold (\<lambda>t c. record_failure c service_name t) stamps cb"

text \<open>A two-leg opportunity spread evenly over two bookmakers.\<close>

definition example_cross_opportunity :: CrossMarketOpportunity where
  "example_cross_opportunity =
     \<lparr>cm_game_id = PStr ''g1'', market_combination = [''h2h'', ''totals''],
      cm_profit_margin = 2, cm_correlation_risk = 45 / 100,
      selected_outcomes = [(''h2h'', ''TeamX''), (''totals'', ''Over'')],
      bookmaker_distribution = [(''Source A'', 5 / 10), (''Source B'', 5 / 10)],
      true_probabilities = None\<rparr>"

subsection \<open>Implied probability, stakes and further examples\<close>

text \<open>The sum of \<open>1 / price\<close> over a best-odds dictionary.\<close>

definition implied_sum :: "best_odds_dict \<Rightarrow> real" where
  "implied_sum sel = sum_list (map (\<lambda>(k, info). 1 / price info) sel)"

text \<open>
  A best-odds dictionary as the Python value that \<open>calculate_optimal_stakes\<close> receives
  (the API passes \<open>opp.best_odds\<close>).
\<close>

definition py_odds_info :: "odds_info \<Rightarrow> pyval" where
  "py_odds_info info =
     PDict ([(PStr ''price'', PNum (price info)), (PStr ''bookmaker'', bookmaker info)] @
            (case point info of None \<Rightarrow> [] | Some x \<Rightarrow> [(PStr ''point'', PNum x)]))"

definition py_best_odds :: "best_odds_dict \<Rightarrow> pyval" where
  "py_best_odds sel = PDict (map (\<lambda>(k, info). (k, py_odds_info info)) sel)"

text \<open>The three keys that the returned dictionary adds to the stakes.\<close>

definition summary_keys :: "pyval set" where
  "summary_keys = {PStr ''total_investment'', PStr ''guaranteed_profit'', PStr ''profit_percentage''}"

text \<open>The sum of the stakes that a returned dictionary holds for the outcomes of \<open>sel\<close>.\<close>

definition stake_total :: "(pyval \<times> real) list \<Rightarrow> best_odds_dict \<Rightarrow> real" where
  "stake_total res sel =
     sum_list (map (\<lambda>(k, info). case map_of res k of None \<Rightarrow> 0 | Some s \<Rightarrow> s) sel)"

text \<open>The best odds of \<open>example_game\<close>.\<close>

definition example_best_odds :: best_odds_dict where
  "example_best_odds =
     [(PStr ''TeamX'', \<lparr>price = 22 / 10, bookmaker = PStr ''Source A'', point = None\<rparr>),
      (PStr ''TeamY'', \<lparr>price = 3, bookmaker = PStr ''Source B'', point = None\<rparr>)]"

text \<open>Best odds with an outcome that is named like a summary key.\<close>

definition summary_named_best_odds :: best_odds_dict where
  "summary_named_best_odds =
     [(PStr ''total_investment'', \<lparr>price = 2, bookmaker = PStr ''Source A'', point = None\<rparr>),
      (PStr ''TeamY'', \<lparr>price = 2, bookmaker = PStr ''Source B'', point = None\<rparr>)]"


text \<open>The engine of the fixture \<open>arbitrage_engine\<close> of
  \<open>tests/test_enhanced_arbitrage_detection.py\<close>: a margin threshold of 0.1%, the
  confidence threshold left at its default of 0.7.\<close>

definition fixture_engine :: EnhancedArbitrageEngine where
  "fixture_engine =
     \<lparr>min_profit_threshold = 1 / 10, max_stake_percentage = 95 / 100,
      enable_cross_market = True, confidence_threshold = 7 / 10\<rparr>"

text \<open>The game of the fixture \<open>arbitrage_opportunity_odds\<close> of \<open>tests/conftest.py\<close>, and
  the best odds that the test expects for it.\<close>

definition arbitrage_game :: pyval where
  "arbitrage_game =
     PDict [(PStr ''id'', PStr ''arbitrage_game''),
            (PStr ''sport_key'', PStr ''basketball_wnba''),
            (PStr ''sport_title'', PStr ''WNBA''),
            (PStr ''commence_time'', PStr ''2025-06-10T02:00:00Z''),
            (PStr ''home_team'', PStr ''Team A''),
            (PStr ''away_team'', PStr ''Team B''),
            (PStr ''bookmakers'', PList
               [PDict [(PStr ''key'', PStr ''bookmaker1''), (PStr ''title'', PStr ''Bookmaker 1''),
                       (PStr ''last_update'', PStr ''2025-06-09T07:41:09Z''),
                       (PStr ''markets'', PList
                          [PDict [(PStr ''key'', PStr ''h2h''),
                                  (PStr ''last_update'', PStr ''2025-06-09T07:41:09Z''),
                                  (PStr ''outcomes'', PList
                                     [mk_outcome ''Team A'' (22 / 10),
                                      mk_outcome ''Team B'' (15 / 10)])]])],
                PDict [(PStr ''key'', PStr ''bookmaker2''), (PStr ''title'', PStr ''Bookmaker 2''),
                       (PStr ''last_update'', PStr ''2025-06-09T07:41:09Z''),
                       (PStr ''markets'', PList
                          [PDict [(PStr ''key'', PStr ''h2h''),
                                  (PStr ''last_update'', PStr ''2025-06-09T07:41:09Z''),
                                  (PStr ''outcomes'', PList
                                     [mk_outcome ''Team A'' (14 / 10),
                                      mk_outcome ''Team B'' 3])]])]])]"

definition arbitrage_best_odds :: best_odds_dict where
  "arbitrage_best_odds =
     [(PStr ''Team A'', \<lparr>price = 22 / 10, bookmaker = PStr ''Bookmaker 1'', point = None\<rparr>),
      (PStr ''Team B'', \<lparr>price = 3, bookmaker = PStr ''Bookmaker 2'', point = None\<rparr>)]"

text \<open>A price that arrives as a string.\<close>

definition string_price_game :: pyval where
  "string_price_game =
     mk_game ''g4''
       [mk_bookmaker ''a'' ''Source A''
          [mk_market ''h2h''
             [PDict [(PStr ''name'', PStr ''TeamX''), (PStr ''price'', PStr ''2.20'')]]]]"

text \<open>Some formatting functions, to have closed examples.\<close>

definition null_format :: py_format where
  "null_format =
     \<lparr>py_str = (\<lambda>v. case v of PStr s \<Rightarrow> s | _ \<Rightarrow> ''?''), signed_1f = (\<lambda>x. ''+0.0'')\<rparr>"

subsection \<open>Where the prices of a selection come from\<close>




subsection \<open>The parts of a risk assessment\<close>

definition bookmaker_risk_of :: "float_arith \<Rightarrow> (string \<times> real) list \<Rightarrow> real" where
  "bookmaker_risk_of ar shares =
     (if length shares < 2 then fround ar (5 / 10)
      else if Max (snd ` set shares) > fround ar (8 / 10) then fround ar (4 / 10)
      else if Max (snd ` set shares) > fround ar (6 / 10) then fround ar (2 / 10)
      else fround ar 0)"

definition market_risk_of :: "float_arith \<Rightarrow> string list \<Rightarrow> real" where
  "market_risk_of ar legs = fmul ar (fround ar (1 / 10)) (real (length legs))"

definition overall_risk_of :: "float_arith \<Rightarrow> CrossMarketOpportunity \<Rightarrow> real" where
  "overall_risk_of ar opp =
     fadd ar
       (fadd ar (fmul ar (cm_correlation_risk opp) (fround ar (6 / 10)))
                (fmul ar (bookmaker_risk_of ar (bookmaker_distribution opp)) (fround ar (3 / 10))))
       (fmul ar (market_risk_of ar (market_combination opp)) (fround ar (1 / 10)))"

definition stake_step :: "float_arith \<Rightarrow> real \<Rightarrow> real" where
  "stake_step ar overall =
     (if overall < fround ar (2 / 10) then fround ar (10 / 100)
      else if overall < fround ar (5 / 10) then fround ar (5 / 100)
      else fround ar (2 / 100))"

definition risk_factors_of :: "float_arith \<Rightarrow> CrossMarketOpportunity \<Rightarrow> string list" where
  "risk_factors_of ar opp =
     (if cm_correlation_risk opp > fround ar (8 / 10) then [''High market correlation'']
      else if cm_correlation_risk opp > fround ar (6 / 10) then [''Moderate market correlation'']
      else []) @
     (if length (bookmaker_distribution opp) < 2 then [''Single bookmaker exposure'']
      else if Max (snd ` set (bookmaker_distribution opp)) > fround ar (8 / 10)
      then [''High bookmaker concentration'']
      else if Max (snd ` set (bookmaker_distribution opp)) > fround ar (6 / 10)
      then [''Moderate bookmaker concentration'']
      else []) @
     (if length (market_combination opp) > 2 then [''Multi-market complexity''] else [])"

section \<open>Basic facts\<close>

lemma ebind_Inr [simp]: "ebind (Inr x) f = f x"
  by (simp add: ebind_def)

lemma ebind_Inl [simp]: "ebind (Inl e) f = Inl e"
  by (simp add: ebind_def)

lemma ebind_Inr_iff: "ebind m f = Inr y \<longleftrightarrow> (\<exists>x. m = Inr x \<and> f x = Inr y)"
  by (cases m) simp_all

lemma try_except_returns: "\<exists>r. try_except body d = Inr r"
  by (cases body) (simp_all add: try_except_def)

lemma try_except_Inl [simp]: "try_except (Inl e) d = Inr d"
  by (simp add: try_except_def)

lemma try_except_Inr [simp]: "try_except (Inr r) d = Inr r"
  by (simp add: try_except_def)

lemma for_each_append:
  "for_each f (xs @ ys) s = ebind (for_each f xs s) (for_each f ys)"
  by (induction xs arbitrary: s) (auto split: sum.splits)

lemma for_each_snoc_Inr:
  "for_each f (xs @ [x]) s = Inr s' \<longleftrightarrow> (\<exists>s1. for_each f xs s = Inr s1 \<and> f s1 x = Inr s')"
  by (cases "for_each f xs s") (auto simp: for_each_append split: sum.splits)

lemmas mk_defs = mk_outcome_def mk_market_def mk_bookmaker_def mk_game_def

lemmas find_best_odds_defs =
  find_best_odds_def bookmaker_step_def market_step_def outcome_step_def keep_best_def

lemmas market_quotes_defs =
  market_quotes_def bookmaker_quote_def market_quote_def outcome_quote_def

section \<open>Best odds\<close>

subsection \<open>The loops fold \<open>keep_best\<close> over the quotes\<close>

lemma for_each_lift:
  assumes step: "\<And>s s' x acc. f s x = Inr s' \<Longrightarrow>
            \<exists>qs. fq acc x = Inr (acc @ qs) \<and> for_each keep_best qs s = Inr s'"
    and run: "for_each f xs s = Inr s'"
  shows "\<exists>qs. for_each fq xs acc = Inr (acc @ qs) \<and> for_each keep_best qs s = Inr s'"
  using run
proof (induction xs arbitrary: s acc)
  case Nil
  then show ?case by (intro exI[of _ "[]"]) simp
next
  case (Cons x xs)
  from Cons.prems obtain s1 where s1: "f s x = Inr s1" and rest: "for_each f xs s1 = Inr s'"
    by (auto split: sum.splits)
  from step[OF s1, of acc] obtain q1 where
    q1: "fq acc x = Inr (acc @ q1)" "for_each keep_best q1 s = Inr s1" by blast
  from Cons.IH[OF rest, of "acc @ q1"] obtain q2 where
    q2: "for_each fq xs (acc @ q1) = Inr ((acc @ q1) @ q2)" "for_each keep_best q2 s1 = Inr s'"
    by blast
  show ?case
    by (intro exI[of _ "q1 @ q2"]) (simp add: q1 q2 for_each_append)
qed

lemma outcome_step_quote:
  assumes "outcome_step b s x = Inr s'"
  shows "\<exists>qs. outcome_quote b acc x = Inr (acc @ qs) \<and> for_each keep_best qs s = Inr s'"
proof -
  from assms obtain n p where
    "py_get x ''name'' PNone = Inr n" "py_get x ''price'' (PNum 0) = Inr p"
    "keep_best s (n, p, b) = Inr s'"
    by (auto simp: outcome_step_def ebind_Inr_iff)
  then show ?thesis
    by (intro exI[of _ "[(n, p, b)]"]) (simp add: outcome_quote_def)
qed

lemma market_step_quote:
  assumes "market_step mt bm s x = Inr s'"
  shows "\<exists>qs. market_quote mt bm acc x = Inr (acc @ qs) \<and> for_each keep_best qs s = Inr s'"
proof -
  from assms obtain k where k: "py_get x ''key'' PNone = Inr k"
    and body: "(if k = PStr mt then
         ebind (py_get bm ''key'' (PStr ''Unknown'')) (\<lambda>dflt.
         ebind (py_get bm ''title'' dflt) (\<lambda>book_name.
         ebind (py_get x ''outcomes'' (PList [])) (\<lambda>outs.
         ebind (py_iter outs) (\<lambda>os.
           for_each (outcome_step book_name) os s))))
       else Inr s) = Inr s'"
    by (auto simp: market_step_def ebind_Inr_iff)
  show ?thesis
  proof (cases "k = PStr mt")
    case False
    with body have "s' = s" by simp
    with False k show ?thesis
      by (intro exI[of _ "[]"]) (simp add: market_quote_def)
  next
    case True
    with body obtain dflt book outs os where
      g: "py_get bm ''key'' (PStr ''Unknown'') = Inr dflt" "py_get bm ''title'' dflt = Inr book"
         "py_get x ''outcomes'' (PList []) = Inr outs" "py_iter outs = Inr os"
      and run: "for_each (outcome_step book) os s = Inr s'"
      by (auto simp: ebind_Inr_iff)
    from for_each_lift[of "outcome_step book" "outcome_quote book", OF outcome_step_quote run, of acc]
    obtain qs where "for_each (outcome_quote book) os acc = Inr (acc @ qs)"
      "for_each keep_best qs s = Inr s'" by blast
    with True k g show ?thesis
      by (intro exI[of _ qs]) (simp add: market_quote_def)
  qed
qed

lemma bookmaker_step_quote:
  assumes "bookmaker_step mt s x = Inr s'"
  shows "\<exists>qs. bookmaker_quote mt acc x = Inr (acc @ qs) \<and> for_each keep_best qs s = Inr s'"
proof -
  from assms obtain mkts ms where
    g: "py_get x ''markets'' (PList []) = Inr mkts" "py_iter mkts = Inr ms"
    and run: "for_each (market_step mt x) ms s = Inr s'"
    by (auto simp: bookmaker_step_def ebind_Inr_iff)
  from for_each_lift[of "market_step mt x" "market_quote mt x", OF market_step_quote run, of acc]
  obtain qs where "for_each (market_quote mt x) ms acc = Inr (acc @ qs)"
    "for_each keep_best qs s = Inr s'" by blast
  with g show ?thesis
    by (intro exI[of _ qs]) (simp add: bookmaker_quote_def)
qed

lemma find_best_odds_quotes:
  assumes "find_best_odds g mt = Inr sel"
  shows "\<exists>qs. market_quotes g mt = Inr qs \<and> for_each keep_best qs [] = Inr sel"
proof -
  from assms obtain bms bs where
    g: "py_get g ''bookmakers'' (PList []) = Inr bms" "py_iter bms = Inr bs"
    and run: "for_each (bookmaker_step mt) bs [] = Inr sel"
    by (auto simp: find_best_odds_def ebind_Inr_iff)
  from for_each_lift[of "bookmaker_step mt" "bookmaker_quote mt", OF bookmaker_step_quote run, of "[]"]
  obtain qs where "for_each (bookmaker_quote mt) bs [] = Inr ([] @ qs)"
    "for_each keep_best qs [] = Inr sel" by blast
  with g show ?thesis
    by (intro exI[of _ qs]) (simp add: market_quotes_def)
qed

subsection \<open>What the fold keeps\<close>

lemma offers_Nil [simp]: "offers n [] = []"
  by (simp add: offers_def)

lemma best_for_cong:
  "offers n qs' = offers n qs \<Longrightarrow> best_for n qs r \<Longrightarrow> best_for n qs' r"
  by (cases r) (simp_all add: best_for_def)

lemma keep_best_inv:
  assumes inv: "\<And>n. best_for n qs (map_of s n)"
    and step: "keep_best s q = Inr s'"
  shows "best_for n (qs @ [q]) (map_of s' n)"
proof -
  obtain n0 pr b where q: "q = (n0, pr, b)" by (cases q)
  show ?thesis
  proof (cases "truthy n0")
    case False
    with step q have s': "s' = s" by (simp add: keep_best_def)
    have "offers n (qs @ [q]) = offers n qs \<or> \<not> truthy n"
      using False q by (auto simp: offers_def split: pyval.splits)
    with inv[of n] s' show ?thesis
      by (auto simp: best_for_def split: option.splits)
  next
    case True
    with step q obtain p where pr: "pr = PNum p"
      by (auto simp: keep_best_def split: pyval.splits if_splits)
    show ?thesis
    proof (cases "p > 0")
      case False
      with step q True pr have s': "s' = s" by (simp add: keep_best_def)
      have "offers n (qs @ [q]) = offers n qs"
        using False q pr by (simp add: offers_def)
      with inv[of n] s' show ?thesis by (auto intro: best_for_cong)
    next
      case pos: True
      show ?thesis
      proof (cases "n = n0")
        case False
        have o: "offers n (qs @ [q]) = offers n qs"
          using False q pr by (simp add: offers_def)
        have "map_of s' n = map_of s n"
          using step q True pr pos False
          by (auto simp: keep_best_def update_conv' split: if_splits option.splits)
        with inv[of n] o show ?thesis by (auto intro: best_for_cong)
      next
        case same: True
        have o: "offers n (qs @ [q]) = offers n qs @ [(p, b)]"
          using same q pr pos by (simp add: offers_def)
        show ?thesis
        proof (cases "map_of s n0")
          case None
          with step q True pr pos have
            "s' = AList.update n0 \<lparr>price = p, bookmaker = b, point = None\<rparr> s"
            by (auto simp: keep_best_def split: if_splits)
          then have m: "map_of s' n = Some \<lparr>price = p, bookmaker = b, point = None\<rparr>"
            using same by (simp add: update_conv')
          from inv[of n] None same True have "offers n qs = []"
            by (simp add: best_for_def)
          with o m True same show ?thesis
            unfolding best_for_def
            by (simp, intro exI[of _ "[]"]) simp
        next
          case (Some cur)
          from inv[of n] Some same obtain pre post where
            d: "offers n qs = pre @ (price cur, bookmaker cur) # post"
              "\<forall>(p, b) \<in> set pre. p < price cur" "\<forall>(p, b) \<in> set post. p \<le> price cur"
              "point cur = None"
            by (auto simp: best_for_def)
          show ?thesis
          proof (cases "p > price cur")
            case gt: True
            with step q True pr pos Some have
              "s' = AList.update n0 \<lparr>price = p, bookmaker = b, point = None\<rparr> s"
              by (auto simp: keep_best_def split: if_splits)
            then have m: "map_of s' n = Some \<lparr>price = p, bookmaker = b, point = None\<rparr>"
              using same by (simp add: update_conv')
            have "\<forall>(p', b') \<in> set (offers n qs). p' < p"
              using d gt by fastforce
            with o m True same show ?thesis
              unfolding best_for_def
              by (simp, intro exI[of _ "offers n0 qs"] exI[of _ "[]"]) simp
          next
            case le: False
            with step q True pr pos Some have "s' = s"
              by (auto simp: keep_best_def split: if_splits)
            then have m: "map_of s' n = Some cur" using Some same by simp
            have "offers n (qs @ [q]) = pre @ (price cur, bookmaker cur) # (post @ [(p, b)])"
              using o d by simp
            moreover have "\<forall>(p', b') \<in> set (post @ [(p, b)]). p' \<le> price cur"
              using d le by auto
            ultimately show ?thesis
              using m True same d unfolding best_for_def
              by (simp, intro exI[of _ pre] exI[of _ "post @ [(p, b)]"]) simp
          qed
        qed
      qed
    qed
  qed
qed

lemma keep_best_fold_inv:
  assumes "for_each keep_best qs [] = Inr sel"
  shows "best_for n qs (map_of sel n)"
  using assms
proof (induction qs arbitrary: sel n rule: rev_induct)
  case Nil
  then show ?case by (simp add: best_for_def)
next
  case (snoc q qs)
  from snoc.prems obtain s where
    s: "for_each keep_best qs [] = Inr s" and st: "keep_best s q = Inr sel"
    by (auto simp: for_each_snoc_Inr)
  show ?case
    by (rule keep_best_inv[OF _ st]) (rule snoc.IH[OF s])
qed





lemma rising_game_best_odds:
  "find_best_odds rising_game ''h2h'' = Inr rising_best_odds"
  by (simp add: rising_game_def rising_best_odds_def mk_defs find_best_odds_defs)

lemma rising_game_quotes:
  "market_quotes rising_game ''h2h'' = Inr rising_quotes"
  by (simp add: rising_game_def rising_quotes_def mk_defs market_quotes_defs)

lemma rising_game_wf: "wf_game ''h2h'' rising_game"
  by (simp add: rising_game_def mk_defs)


subsection \<open>The loops return on well-formed game data\<close>

lemma for_each_single: "for_each f [x] s = f s x"
  by (cases "f s x") simp_all

lemma case_sum_ebind: "(case m of Inl e \<Rightarrow> Inl e | Inr x \<Rightarrow> f x) = ebind m f"
  by (simp add: ebind_def)

lemma for_each_unlift:
  assumes step: "\<And>acc x acc'. fq acc x = Inr acc' \<Longrightarrow>
            \<exists>qs. acc' = acc @ qs \<and> (\<forall>s. f s x = for_each keep_best qs s)"
    and run: "for_each fq xs acc = Inr acc'"
  shows "\<exists>qs. acc' = acc @ qs \<and> (\<forall>s. for_each f xs s = for_each keep_best qs s)"
  using run
proof (induction xs arbitrary: acc)
  case Nil
  then show ?case by (intro exI[of _ "[]"]) simp
next
  case (Cons x xs)
  from Cons.prems obtain acc1 where a1: "fq acc x = Inr acc1"
    and rest: "for_each fq xs acc1 = Inr acc'"
    by (auto split: sum.splits)
  from step[OF a1] obtain q1 where
    q1: "acc1 = acc @ q1" "\<forall>s. f s x = for_each keep_best q1 s" by blast
  from Cons.IH[OF rest] obtain q2 where
    q2: "acc' = acc1 @ q2" "\<forall>s. for_each f xs s = for_each keep_best q2 s" by blast
  have "for_each f (x # xs) s = for_each keep_best (q1 @ q2) s" for s
  proof -
    have "for_each f (x # xs) s = ebind (f s x) (for_each f xs)"
      by (simp add: ebind_def)
    also have "for_each f xs = for_each keep_best q2"
      using q2(2) by blast
    also have "f s x = for_each keep_best q1 s"
      using q1(2) by blast
    finally show ?thesis by (simp add: for_each_append)
  qed
  with q1(1) q2(1) show ?case
    by (intro exI[of _ "q1 @ q2"]) simp
qed

lemma outcome_quote_step:
  assumes "outcome_quote b acc x = Inr acc'"
  shows "\<exists>qs. acc' = acc @ qs \<and> (\<forall>s. outcome_step b s x = for_each keep_best qs s)"
proof -
  from assms obtain n p where g: "py_get x ''name'' PNone = Inr n"
    "py_get x ''price'' (PNum 0) = Inr p" and a: "acc' = acc @ [(n, p, b)]"
    by (auto simp: outcome_quote_def ebind_Inr_iff)
  have "outcome_step b s x = for_each keep_best [(n, p, b)] s" for s
    by (simp only: for_each_single) (simp add: outcome_step_def g)
  with a show ?thesis by blast
qed

lemma market_quote_step:
  assumes "market_quote mt bm acc x = Inr acc'"
  shows "\<exists>qs. acc' = acc @ qs \<and> (\<forall>s. market_step mt bm s x = for_each keep_best qs s)"
proof -
  from assms obtain k where k: "py_get x ''key'' PNone = Inr k"
    by (auto simp: market_quote_def ebind_Inr_iff)
  show ?thesis
  proof (cases "k = PStr mt")
    case False
    with assms k have "acc' = acc" by (simp add: market_quote_def)
    moreover have "market_step mt bm s x = for_each keep_best [] s" for s
      using False k by (simp add: market_step_def)
    ultimately show ?thesis by (intro exI[of _ "[]"]) simp
  next
    case True
    with assms k obtain dflt book outs os where
      g: "py_get bm ''key'' (PStr ''Unknown'') = Inr dflt" "py_get bm ''title'' dflt = Inr book"
         "py_get x ''outcomes'' (PList []) = Inr outs" "py_iter outs = Inr os"
      and run: "for_each (outcome_quote book) os acc = Inr acc'"
      by (auto simp: market_quote_def ebind_Inr_iff)
    from for_each_unlift[of "outcome_quote book" "outcome_step book", OF outcome_quote_step run]
    obtain qs where qs: "acc' = acc @ qs"
      "\<forall>s. for_each (outcome_step book) os s = for_each keep_best qs s" by blast
    have "market_step mt bm s x = for_each keep_best qs s" for s
      using True k g qs(2) by (simp add: market_step_def)
    with qs(1) show ?thesis by blast
  qed
qed

lemma bookmaker_quote_step:
  assumes "bookmaker_quote mt acc x = Inr acc'"
  shows "\<exists>qs. acc' = acc @ qs \<and> (\<forall>s. bookmaker_step mt s x = for_each keep_best qs s)"
proof -
  from assms obtain mkts ms where
    g: "py_get x ''markets'' (PList []) = Inr mkts" "py_iter mkts = Inr ms"
    and run: "for_each (market_quote mt x) ms acc = Inr acc'"
    by (auto simp: bookmaker_quote_def ebind_Inr_iff)
  from for_each_unlift[of "market_quote mt x" "market_step mt x", OF market_quote_step run]
  obtain qs where qs: "acc' = acc @ qs"
    "\<forall>s. for_each (market_step mt x) ms s = for_each keep_best qs s" by blast
  have "bookmaker_step mt s x = for_each keep_best qs s" for s
    using g qs(2) by (simp add: bookmaker_step_def)
  with qs(1) show ?thesis by blast
qed

lemma find_best_odds_fold:
  assumes "market_quotes g mt = Inr qs"
  shows "find_best_odds g mt = for_each keep_best qs []"
proof -
  from assms obtain bms bs where
    g: "py_get g ''bookmakers'' (PList []) = Inr bms" "py_iter bms = Inr bs"
    and run: "for_each (bookmaker_quote mt) bs [] = Inr qs"
    by (auto simp: market_quotes_def ebind_Inr_iff)
  from for_each_unlift[of "bookmaker_quote mt" "bookmaker_step mt", OF bookmaker_quote_step run]
  have "for_each (bookmaker_step mt) bs [] = for_each keep_best qs []" by auto
  with g show ?thesis by (simp add: find_best_odds_def)
qed

lemma keep_best_returns_iff:
  "(\<exists>s'. keep_best s q = Inr s') \<longleftrightarrow> clean_quote q"
  by (cases q)
     (auto simp: keep_best_def clean_quote_def split: pyval.splits option.splits)

lemma keep_best_fold_returns_iff:
  "(\<exists>s'. for_each keep_best qs s = Inr s') \<longleftrightarrow> list_all clean_quote qs"
proof (induction qs arbitrary: s)
  case Nil
  then show ?case by simp
next
  case (Cons q qs)
  show ?case
  proof (cases "keep_best s q")
    case (Inl e)
    with keep_best_returns_iff[of s q] show ?thesis by simp
  next
    case (Inr s1)
    with keep_best_returns_iff[of s q] have "clean_quote q" by auto
    with Inr Cons.IH[of s1] show ?thesis by simp
  qed
qed

lemma for_each_collect:
  assumes step: "\<And>acc x. x \<in> set xs \<Longrightarrow> list_all P acc \<Longrightarrow>
            \<exists>acc'. fq acc x = Inr acc' \<and> list_all P acc'"
    and start: "list_all P acc"
  shows "\<exists>acc'. for_each fq xs acc = Inr acc' \<and> list_all P acc'"
  using assms
proof (induction xs arbitrary: acc)
  case Nil
  then show ?case by simp
next
  case (Cons x xs)
  from Cons.prems(1)[of x acc] Cons.prems(2) obtain acc1 where
    a1: "fq acc x = Inr acc1" "list_all P acc1" by auto
  have "\<exists>acc'. for_each fq xs acc1 = Inr acc' \<and> list_all P acc'"
    by (rule Cons.IH[OF _ a1(2)]) (use Cons.prems(1) in auto)
  with a1(1) show ?case by simp
qed

lemma wf_outcome_quote:
  assumes "wf_outcome x" and "list_all clean_quote acc"
  shows "\<exists>acc'. outcome_quote b acc x = Inr acc' \<and> list_all clean_quote acc'"
proof -
  from assms(1) obtain kvs where x: "x = PDict kvs" by (cases x) auto
  let ?n = "case map_of kvs (PStr ''name'') of None \<Rightarrow> PNone | Some v \<Rightarrow> v"
  let ?p = "case map_of kvs (PStr ''price'') of None \<Rightarrow> PNum 0 | Some v \<Rightarrow> v"
  from assms(1) x have n: "is_name ?n" and p: "is_number ?p" by auto
  have "clean_quote (?n, ?p, b)"
    using n p by (cases ?n; cases ?p) (auto simp: clean_quote_def)
  with assms(2) show ?thesis
    by (simp add: x outcome_quote_def)
qed

lemma wf_market_quote:
  assumes "wf_market mt x" and "list_all clean_quote acc" and "\<exists>kvs. bm = PDict kvs"
  shows "\<exists>acc'. market_quote mt bm acc x = Inr acc' \<and> list_all clean_quote acc'"
proof -
  from assms(1) obtain kvs where x: "x = PDict kvs" by (cases x) auto
  from assms(3) obtain bkvs where bm: "bm = PDict bkvs" by blast
  show ?thesis
  proof (cases "map_of kvs (PStr ''key'') = Some (PStr mt)")
    case False
    then have "(case map_of kvs (PStr ''key'') of None \<Rightarrow> PNone | Some v \<Rightarrow> v) \<noteq> PStr mt"
      by (auto split: option.splits)
    with assms(2) show ?thesis by (simp add: x market_quote_def)
  next
    case True
    obtain book where book: "py_get bm ''key'' (PStr ''Unknown'') = Inr (
         case map_of bkvs (PStr ''key'') of None \<Rightarrow> PStr ''Unknown'' | Some v \<Rightarrow> v)"
      by (simp add: bm)
    show ?thesis
    proof (cases "map_of kvs (PStr ''outcomes'')")
      case None
      with True assms(2) show ?thesis by (simp add: x bm market_quote_def)
    next
      case (Some outs)
      with True assms(1) x obtain os where os: "outs = PList os" "list_all wf_outcome os"
        by (cases outs) auto
      let ?book = "case map_of bkvs (PStr ''title'') of
                     None \<Rightarrow> (case map_of bkvs (PStr ''key'') of
                                 None \<Rightarrow> PStr ''Unknown'' | Some v \<Rightarrow> v)
                   | Some v \<Rightarrow> v"
      have "\<exists>acc'. for_each (outcome_quote ?book) os acc = Inr acc' \<and> list_all clean_quote acc'"
      proof (rule for_each_collect[OF _ assms(2)])
        fix acc' x' assume a: "x' \<in> set os" "list_all clean_quote acc'"
        with os(2) have "wf_outcome x'" by (simp add: list_all_iff)
        from wf_outcome_quote[OF this a(2)]
        show "\<exists>acc''. outcome_quote ?book acc' x' = Inr acc'' \<and> list_all clean_quote acc''" .
      qed
      with True Some os(1) show ?thesis by (simp add: x bm market_quote_def)
    qed
  qed
qed

lemma wf_bookmaker_quote:
  assumes "wf_bookmaker mt x" and "list_all clean_quote acc"
  shows "\<exists>acc'. bookmaker_quote mt acc x = Inr acc' \<and> list_all clean_quote acc'"
proof -
  from assms(1) obtain kvs where x: "x = PDict kvs" by (cases x) auto
  show ?thesis
  proof (cases "map_of kvs (PStr ''markets'')")
    case None
    with assms(2) show ?thesis by (simp add: x bookmaker_quote_def)
  next
    case (Some mkts)
    with assms(1) x obtain ms where ms: "mkts = PList ms" "list_all (wf_market mt) ms"
      by (cases mkts) auto
    have "\<exists>acc'. for_each (market_quote mt x) ms acc = Inr acc' \<and> list_all clean_quote acc'"
    proof (rule for_each_collect[OF _ assms(2)])
      fix acc' x' assume a: "x' \<in> set ms" "list_all clean_quote acc'"
      with ms(2) have "wf_market mt x'" by (simp add: list_all_iff)
      from wf_market_quote[OF this a(2), of x] x
      show "\<exists>acc''. market_quote mt x acc' x' = Inr acc'' \<and> list_all clean_quote acc''"
        by blast
    qed
    with Some ms(1) show ?thesis by (simp add: x bookmaker_quote_def)
  qed
qed

lemma wf_game_quotes:
  assumes "wf_game mt g"
  shows "\<exists>qs. market_quotes g mt = Inr qs \<and> list_all clean_quote qs"
proof -
  from assms obtain kvs where g: "g = PDict kvs" by (cases g) auto
  show ?thesis
  proof (cases "map_of kvs (PStr ''bookmakers'')")
    case None
    then show ?thesis by (simp add: g market_quotes_def)
  next
    case (Some bms)
    with assms g obtain bs where bs: "bms = PList bs" "list_all (wf_bookmaker mt) bs"
      by (cases bms) auto
    have "\<exists>acc'. for_each (bookmaker_quote mt) bs [] = Inr acc' \<and> list_all clean_quote acc'"
    proof (rule for_each_collect)
      fix acc' x' assume a: "x' \<in> set bs" "list_all clean_quote acc'"
      with bs(2) have "wf_bookmaker mt x'" by (simp add: list_all_iff)
      from wf_bookmaker_quote[OF this a(2)]
      show "\<exists>acc''. bookmaker_quote mt acc' x' = Inr acc'' \<and> list_all clean_quote acc''" .
    qed simp
    with Some bs(1) show ?thesis by (simp add: g market_quotes_def)
  qed
qed

text \<open>
  C7. On game data that is well formed for the market type \<open>_find_best_odds\<close> returns.
  Its result is the fold of \<open>keep_best\<close> over the quotes of the market in the order the
  loops visit them, so it returns exactly when every quote is clean. Whenever it
  returns, its dictionary holds, for every outcome name, the first of the highest
  positive prices quoted for that name over all bookmakers, with the bookmaker that
  quoted it: every earlier quote for the name is strictly lower, every later one is
  lower or equal, so a later quote at the same price does not replace it and a later
  strictly higher one does. A name with no positive quote, or a falsy name, has no
  entry.
\<close>

theorem best_odds_first_highest:
  "(wf_game mtype game_data \<longrightarrow> (\<exists>sel. find_best_odds game_data mtype = Inr sel)) \<and>
   (\<forall>qs. market_quotes game_data mtype = Inr qs \<longrightarrow>
      find_best_odds game_data mtype = for_each keep_best qs [] \<and>
      ((\<exists>sel. find_best_odds game_data mtype = Inr sel) \<longleftrightarrow> list_all clean_quote qs)) \<and>
   (\<forall>sel. find_best_odds game_data mtype = Inr sel \<longrightarrow>
      (\<exists>qs. market_quotes game_data mtype = Inr qs \<and> (\<forall>n. best_for n qs (map_of sel n))))"
proof -
  have fold: "find_best_odds game_data mtype = for_each keep_best qs [] \<and>
      ((\<exists>sel. find_best_odds game_data mtype = Inr sel) \<longleftrightarrow> list_all clean_quote qs)"
    if "market_quotes game_data mtype = Inr qs" for qs
    using find_best_odds_fold[OF that] keep_best_fold_returns_iff[of qs "[]"] by simp
  have total: "\<exists>sel. find_best_odds game_data mtype = Inr sel" if "wf_game mtype game_data"
  proof -
    from wf_game_quotes[OF that] obtain qs where
      "market_quotes game_data mtype = Inr qs" "list_all clean_quote qs" by blast
    with fold[of qs] show ?thesis by blast
  qed
  have best: "\<exists>qs. market_quotes game_data mtype = Inr qs \<and> (\<forall>n. best_for n qs (map_of sel n))"
    if run: "find_best_odds game_data mtype = Inr sel" for sel
  proof -
    from find_best_odds_quotes[OF run] obtain qs where
      qs: "market_quotes game_data mtype = Inr qs" and f: "for_each keep_best qs [] = Inr sel"
      by blast
    have "\<forall>n. best_for n qs (map_of sel n)"
      using keep_best_fold_inv[OF f] by blast
    with qs show ?thesis by blast
  qed
  from fold total best show ?thesis by blast
qed


text \<open>Three sources: TeamX stays with Source A, whose 2.20 Source B only equals; TeamY
  moves to Source B, whose 3.00 is higher than the 1.50 of Source A; the missing price
  of Source C changes nothing, and a name that is not quoted has no entry.\<close>

theorem best_odds_first_highest_witness:
  "wf_game ''h2h'' rising_game \<and>
   market_quotes rising_game ''h2h'' = Inr rising_quotes \<and>
   list_all clean_quote rising_quotes \<and>
   find_best_odds rising_game ''h2h'' = for_each keep_best rising_quotes [] \<and>
   find_best_odds rising_game ''h2h'' = Inr rising_best_odds \<and>
   best_for (PStr ''TeamX'') rising_quotes
     (Some \<lparr>price = 22 / 10, bookmaker = PStr ''Source A'', point = None\<rparr>) \<and>
   best_for (PStr ''TeamY'') rising_quotes
     (Some \<lparr>price = 3, bookmaker = PStr ''Source B'', point = None\<rparr>) \<and>
   best_for (PStr ''TeamZ'') rising_quotes None"
proof -
  note inst = best_odds_first_highest[of "''h2h''" rising_game]
  from inst[THEN conjunct1] rising_game_wf
  obtain sel where sel: "find_best_odds rising_game ''h2h'' = Inr sel"
    by (elim impE exE)
  with rising_game_best_odds have s: "sel = rising_best_odds" by simp
  from inst[THEN conjunct2, THEN conjunct1, rule_format, OF rising_game_quotes]
  have fold: "find_best_odds rising_game ''h2h'' = for_each keep_best rising_quotes []"
    and iff: "(\<exists>sel. find_best_odds rising_game ''h2h'' = Inr sel) \<longleftrightarrow>
              list_all clean_quote rising_quotes"
    by (rule conjunct1, rule conjunct2)
  from iff sel have clean: "list_all clean_quote rising_quotes" by (elim iffE impE) (rule exI)
  from inst[THEN conjunct2, THEN conjunct2, rule_format, OF sel]
  obtain qs where qs: "market_quotes rising_game ''h2h'' = Inr qs"
    and b: "\<forall>n. best_for n qs (map_of sel n)"
    by (elim exE conjE)
  from qs rising_game_quotes have q: "qs = rising_quotes" by simp
  have m: "map_of rising_best_odds (PStr ''TeamX'')
             = Some \<lparr>price = 22 / 10, bookmaker = PStr ''Source A'', point = None\<rparr>"
    "map_of rising_best_odds (PStr ''TeamY'')
             = Some \<lparr>price = 3, bookmaker = PStr ''Source B'', point = None\<rparr>"
    "map_of rising_best_odds (PStr ''TeamZ'') = None"
    by (simp_all add: rising_best_odds_def)
  from b[rule_format, of "PStr ''TeamX''"] b[rule_format, of "PStr ''TeamY''"]
    b[rule_format, of "PStr ''TeamZ''"]
  have bf: "best_for (PStr ''TeamX'') rising_quotes
          (Some \<lparr>price = 22 / 10, bookmaker = PStr ''Source A'', point = None\<rparr>)"
        "best_for (PStr ''TeamY'') rising_quotes
          (Some \<lparr>price = 3, bookmaker = PStr ''Source B'', point = None\<rparr>)"
        "best_for (PStr ''TeamZ'') rising_quotes None"
    unfolding q s m by -
  show ?thesis
    by (intro conjI rising_game_wf rising_game_quotes clean fold rising_game_best_odds bf)
qed


section \<open>Cross-market detection\<close>

lemma analyze_returns_nothing: "analyze_cross_market_combination g combo = Inr []"
  by (auto simp: analyze_cross_market_combination_def Let_def try_except_def ebind_def
           split: sum.splits)

lemma detect_cross_market_nothing: "detect_cross_market_arbitrage eng g = Inr []"
  by (cases "get_available_markets g")
     (simp_all add: detect_cross_market_arbitrage_def market_combinations_def
        analyze_returns_nothing)

text \<open>
  C5. For every engine and every game data, \<open>detect_cross_market_arbitrage\<close> returns the
  empty list, because \<open>_analyze_cross_market_combination\<close> returns the empty list on
  every path; and what \<open>_detect_game_arbitrage\<close> returns does not depend on the result
  of the cross-market call.
\<close>

theorem cross_market_emits_nothing:
  "detect_cross_market_arbitrage eng game_data = Inr [] \<and>
   analyze_cross_market_combination game_data market_combo = Inr [] \<and>
   detect_game_arbitrage_from ml sp tot cross = detect_game_arbitrage_from ml sp tot cross' \<and>
   detect_game_arbitrage fmt eng now game_data =
     detect_game_arbitrage_from (detect_moneyline_arbitrage eng now game_data)
       (detect_spread_arbitrage fmt eng now game_data)
       (detect_totals_arbitrage eng now game_data) cross"
proof -
  have ind: "detect_game_arbitrage_from ml sp tot c1 = detect_game_arbitrage_from ml sp tot c2"
    for ml sp tot c1 c2
    by (simp add: detect_game_arbitrage_from_def split: sum.splits)
  have "detect_game_arbitrage fmt eng now game_data =
     detect_game_arbitrage_from (detect_moneyline_arbitrage eng now game_data)
       (detect_spread_arbitrage fmt eng now game_data)
       (detect_totals_arbitrage eng now game_data) cross"
    unfolding detect_game_arbitrage_def by (rule ind)
  with ind[of ml sp tot cross cross'] show ?thesis
    by (simp add: analyze_returns_nothing detect_cross_market_nothing)
qed

section \<open>The fetch cycle\<close>

lemma gather_running:
  "(s, Running) \<in> set tasks \<Longrightarrow> gather_before_timeout tasks = None"
  by (induction tasks rule: gather_before_timeout.induct) auto

lemma fetch_running_empty:
  "(s, Running) \<in> set tasks \<Longrightarrow> fetch_multiple_sports_concurrent tasks = []"
  by (simp add: fetch_multiple_sports_concurrent_def gather_running)

text \<open>
  C8, where the code departs from it. One source has returned its odds and another is
  still running when the cycle's timeout expires: the result set is empty, so the
  finished source's result is lost. Without the slow source the same result is kept.
\<close>

theorem fetch_timeout_loses_completed:
  "fetch_multiple_sports_concurrent
     [(''basketball_wnba'', Returned (Some (PDict [(PStr ''games'', PList [])]))),
      (''timeout_sport'', Running)] = [] \<and>
   fetch_multiple_sports_concurrent
     [(''basketball_wnba'', Returned (Some (PDict [(PStr ''games'', PList [])])))]
     = [(''basketball_wnba'', PDict [(PStr ''games'', PList [])])]"
  by (simp add: fetch_multiple_sports_concurrent_def)

section \<open>Risk assessment\<close>

text \<open>What the assessor derives from the distribution over bookmakers, from the
  number of legs, and from the three risks.\<close>

lemma fold_max_Max: "fold max xs (x::real) = Max (set (x # xs))"
  by (rule Max.set_eq_fold[symmetric])

lemma risk_body_value:
  "risk_body ar opp =
     Inr \<lparr>overall_risk = overall_risk_of ar opp,
          ra_correlation_risk = cm_correlation_risk opp,
          bookmaker_risk = bookmaker_risk_of ar (bookmaker_distribution opp),
          market_risk = market_risk_of ar (market_combination opp),
          recommended_stake_percentage = stake_step ar (overall_risk_of ar opp),
          risk_factors = risk_factors_of ar opp\<rparr>"
proof (cases "length (bookmaker_distribution opp) < 2")
  case True
  then show ?thesis
    by (simp add: risk_body_def Let_def overall_risk_of_def bookmaker_risk_of_def
          market_risk_of_def stake_step_def risk_factors_of_def)
next
  case False
  then obtain x xs where m: "map snd (bookmaker_distribution opp) = x # xs"
    by (cases "bookmaker_distribution opp") auto
  then have mx: "Max (snd ` set (bookmaker_distribution opp)) = fold max xs x"
    by (metis fold_max_Max list.set_map)
  consider "fold max xs x > fround ar (8 / 10)"
    | "\<not> fold max xs x > fround ar (8 / 10)" "fold max xs x > fround ar (6 / 10)"
    | "\<not> fold max xs x > fround ar (8 / 10)" "\<not> fold max xs x > fround ar (6 / 10)"
    by blast
  then show ?thesis
  proof cases
    case 1
    with False show ?thesis
      by (simp add: risk_body_def Let_def m mx overall_risk_of_def bookmaker_risk_of_def
            market_risk_of_def stake_step_def risk_factors_of_def)
  next
    case 2
    with False show ?thesis
      by (simp add: risk_body_def Let_def m mx overall_risk_of_def bookmaker_risk_of_def
            market_risk_of_def stake_step_def risk_factors_of_def)
  next
    case 3
    with False show ?thesis
      by (simp add: risk_body_def Let_def m mx overall_risk_of_def bookmaker_risk_of_def
            market_risk_of_def stake_step_def risk_factors_of_def)
  qed
qed

text \<open>
  C9. For every float arithmetic and every opportunity, the assessor returns the
  assessment of its \<open>try\<close> block, never the handler's. Its correlation risk is the
  opportunity's own. Its bookmaker risk is 0.5 for fewer than two bookmakers, else
  0.4 when the largest share exceeds 0.8, else 0.2 when it exceeds 0.6, else 0. Its
  market risk is 0.1 times the number of legs. Its overall risk is the float sum of
  the correlation risk times 0.6, the bookmaker risk times 0.3 and the market risk
  times 0.1, and the recommended stake is 10% of the bankroll when the overall risk
  is below 0.2, 5% when it is below 0.5, and 2% otherwise.
\<close>

theorem risk_assessment_formula:
  "\<exists>ra. assess_cross_market_risk ar opp = Inr ra \<and>
     ra_correlation_risk ra = cm_correlation_risk opp \<and>
     bookmaker_risk ra =
       (if length (bookmaker_distribution opp) < 2 then fround ar (5 / 10)
        else if Max (snd ` set (bookmaker_distribution opp)) > fround ar (8 / 10)
        then fround ar (4 / 10)
        else if Max (snd ` set (bookmaker_distribution opp)) > fround ar (6 / 10)
        then fround ar (2 / 10)
        else fround ar 0) \<and>
     market_risk ra =
       fmul ar (fround ar (1 / 10)) (real (length (market_combination opp))) \<and>
     overall_risk ra =
       fadd ar
         (fadd ar (fmul ar (ra_correlation_risk ra) (fround ar (6 / 10)))
                  (fmul ar (bookmaker_risk ra) (fround ar (3 / 10))))
         (fmul ar (market_risk ra) (fround ar (1 / 10))) \<and>
     recommended_stake_percentage ra =
       (if overall_risk ra < fround ar (2 / 10) then fround ar (10 / 100)
        else if overall_risk ra < fround ar (5 / 10) then fround ar (5 / 100)
        else fround ar (2 / 100))"
  unfolding assess_cross_market_risk_def risk_body_value
  by (simp add: overall_risk_of_def bookmaker_risk_of_def market_risk_of_def stake_step_def)

text \<open>
  Without rounding the overall risk is \<open>0.6 c + 0.3 b + 0.1 m\<close>. Correlation 0.45, no
  bookmaker above 60%, two legs: 0.27 + 0 + 0.02 = 0.29, so 5%. One bookmaker at
  correlation 0.1 and one leg: 0.06 + 0.15 + 0.01 = 0.22, so 5% as well; the same at
  correlation 0: 0.16, so 10%.
\<close>

theorem risk_assessment_formula_witness:
  "assess_cross_market_risk exact_arith example_cross_opportunity =
     Inr \<lparr>overall_risk = 29 / 100, ra_correlation_risk = 45 / 100, bookmaker_risk = 0,
          market_risk = 2 / 10, recommended_stake_percentage = 5 / 100, risk_factors = []\<rparr> \<and>
   (\<exists>ra. assess_cross_market_risk exact_arith
            (example_cross_opportunity\<lparr>cm_correlation_risk := 0,
               market_combination := [''h2h''],
               bookmaker_distribution := [(''Source A'', 1)]\<rparr>) = Inr ra \<and>
         bookmaker_risk ra = 5 / 10 \<and> market_risk ra = 1 / 10 \<and>
         overall_risk ra = 16 / 100 \<and> recommended_stake_percentage ra = 10 / 100)"
proof -
  let ?one = "example_cross_opportunity\<lparr>cm_correlation_risk := 0,
               market_combination := [''h2h''],
               bookmaker_distribution := [(''Source A'', 1)]\<rparr>"
  from risk_assessment_formula[of exact_arith example_cross_opportunity] obtain ra where
    ra: "assess_cross_market_risk exact_arith example_cross_opportunity = Inr ra"
      "ra_correlation_risk ra = 45 / 100" "bookmaker_risk ra = 0" "market_risk ra = 2 / 10"
      "overall_risk ra = 29 / 100" "recommended_stake_percentage ra = 5 / 100"
    by (auto simp: exact_arith_def example_cross_opportunity_def)
  have "risk_factors_of exact_arith example_cross_opportunity = []"
    by (simp add: risk_factors_of_def exact_arith_def example_cross_opportunity_def Let_def)
  with ra(1) have f: "risk_factors ra = []"
    by (auto simp: assess_cross_market_risk_def risk_body_value)
  from ra f have first: "assess_cross_market_risk exact_arith example_cross_opportunity =
     Inr \<lparr>overall_risk = 29 / 100, ra_correlation_risk = 45 / 100, bookmaker_risk = 0,
          market_risk = 2 / 10, recommended_stake_percentage = 5 / 100, risk_factors = []\<rparr>"
    by (cases ra) simp
  from risk_assessment_formula[of exact_arith ?one] obtain rb where
    "assess_cross_market_risk exact_arith ?one = Inr rb"
    "bookmaker_risk rb = 5 / 10" "market_risk rb = 1 / 10"
    "overall_risk rb = 16 / 100" "recommended_stake_percentage rb = 10 / 100"
    by (auto simp: exact_arith_def example_cross_opportunity_def)
  with first show ?thesis by blast
qed

section \<open>The circuit breaker\<close>

lemma tripped_facts:
  "''odds_api_wnba'' \<in> open_circuits tripped_breaker"
  "failure_counts tripped_breaker ''odds_api_wnba'' = Some 5"
  "last_failure_times tripped_breaker ''odds_api_wnba'' = Some 4"
  "recovery_timeout tripped_breaker = 60"
  "failure_threshold tripped_breaker = 5"
  by (simp_all add: tripped_breaker_def record_failure_def new_circuit_breaker_def Let_def)

lemma record_failures_Cons:
  "record_failures c s (t # ts) = record_failures (record_failure c s t) s ts"
  by (simp add: record_failures_def)

lemma record_failures_state:
  assumes "failure_counts c s = Some m"
  shows "failure_counts (record_failures c s ts) s = Some (m + int (length ts)) \<and>
         failure_threshold (record_failures c s ts) = failure_threshold c \<and>
         open_circuits (record_failures c s ts) =
           open_circuits c \<union>
           (if ts \<noteq> [] \<and> failure_threshold c \<le> m + int (length ts) then {s} else {})"
  using assms
proof (induction ts arbitrary: c m)
  case Nil
  then show ?case by (simp add: record_failures_def)
next
  case (Cons t ts)
  let ?c1 = "record_failure c s t"
  have c1: "failure_counts ?c1 s = Some (m + 1)"
    "failure_threshold ?c1 = failure_threshold c"
    "open_circuits ?c1 = open_circuits c \<union> (if failure_threshold c \<le> m + 1 then {s} else {})"
    using Cons.prems by (auto simp: record_failure_def Let_def)
  from Cons.IH[OF c1(1)] show ?case
    unfolding record_failures_Cons c1 by auto
qed

text \<open>
  C3, as the code has it. When a service's circuit is open and more than
  \<open>recovery_timeout\<close> has passed since its last failure, \<open>is_open\<close> answers false and the
  call itself closes the circuit and sets the failure count to zero. From then on
  \<open>is_open\<close> answers false at every time, not for one request only. After a run of
  consecutive recorded failures the circuit is open exactly when the run is not
  empty and has at least \<open>failure_threshold\<close> failures; until then \<open>is_open\<close> keeps
  answering false and changes nothing. A recorded success leaves the circuit closed.
\<close>

theorem is_open_after_timeout_resets:
  assumes "service_name \<in> open_circuits cb"
    and "now - (case last_failure_times cb service_name of None \<Rightarrow> 0 | Some t \<Rightarrow> t)
           > recovery_timeout cb"
  shows "is_open cb service_name now = (False, closed_and_reset cb service_name) \<and>
         failure_counts (closed_and_reset cb service_name) service_name = Some 0 \<and>
         service_name \<notin> open_circuits (closed_and_reset cb service_name) \<and>
         (\<forall>t. is_open (closed_and_reset cb service_name) service_name t
                = (False, closed_and_reset cb service_name)) \<and>
         (\<forall>stamps. service_name \<in> open_circuits
                  (record_failures (closed_and_reset cb service_name) service_name stamps)
               \<longleftrightarrow> stamps \<noteq> [] \<and> failure_threshold cb \<le> int (length stamps)) \<and>
         (\<forall>stamps t. \<not> (stamps \<noteq> [] \<and> failure_threshold cb \<le> int (length stamps)) \<longrightarrow>
               is_open (record_failures (closed_and_reset cb service_name) service_name stamps)
                 service_name t
               = (False, record_failures (closed_and_reset cb service_name) service_name stamps)) \<and>
         service_name \<notin> open_circuits (record_success (closed_and_reset cb service_name) service_name)"
proof -
  let ?c = "closed_and_reset cb service_name"
  have base: "failure_counts ?c service_name = Some 0" "service_name \<notin> open_circuits ?c"
    "failure_threshold ?c = failure_threshold cb"
    by (simp_all add: closed_and_reset_def)
  have opens: "service_name \<in> open_circuits (record_failures ?c service_name stamps)
               \<longleftrightarrow> stamps \<noteq> [] \<and> failure_threshold cb \<le> int (length stamps)" for stamps
    using record_failures_state[OF base(1), of stamps] base(2,3) by auto
  have stays: "is_open (record_failures ?c service_name stamps) service_name t
               = (False, record_failures (closed_and_reset cb service_name) service_name stamps)"
    if "\<not> (stamps \<noteq> [] \<and> failure_threshold cb \<le> int (length stamps))" for stamps t
    using that opens[of stamps] by (simp add: is_open_def)
  have first: "is_open cb service_name now = (False, ?c)"
    using assms by (simp add: is_open_def closed_and_reset_def Let_def)
  have again: "is_open ?c service_name t = (False, ?c)" for t
    using base(2) by (simp add: is_open_def)
  have succ: "service_name \<notin> open_circuits (record_success ?c service_name)"
    by (simp add: record_success_def)
  from first base(1,2) again opens stays succ show ?thesis by blast
qed

text \<open>With the threshold 5, four further failures leave the circuit closed and the
  fifth opens it.\<close>

theorem is_open_after_timeout_resets_witness:
  "''odds_api_wnba'' \<in> open_circuits tripped_breaker \<and>
   is_open tripped_breaker ''odds_api_wnba'' 65
     = (False, closed_and_reset tripped_breaker ''odds_api_wnba'') \<and>
   failure_counts (closed_and_reset tripped_breaker ''odds_api_wnba'') ''odds_api_wnba'' = Some 0 \<and>
   ''odds_api_wnba'' \<notin> open_circuits
      (record_failures (closed_and_reset tripped_breaker ''odds_api_wnba'') ''odds_api_wnba''
         [66, 67, 68, 69]) \<and>
   ''odds_api_wnba'' \<in> open_circuits
      (record_failures (closed_and_reset tripped_breaker ''odds_api_wnba'') ''odds_api_wnba''
         [66, 67, 68, 69, 70])"
proof -
  have t: "65 - (case last_failure_times tripped_breaker ''odds_api_wnba'' of
                   None \<Rightarrow> 0 | Some t \<Rightarrow> t) > recovery_timeout tripped_breaker"
    by (simp add: tripped_facts)
  from is_open_after_timeout_resets[OF tripped_facts(1) t]
  show ?thesis by (simp add: tripped_facts)
qed


text \<open>
  The claim as stated fails. After five failures, the last at time 4, the call at time
  65 answers false and takes the failure count from 5 to 0; a second call answers
  false as well, and so does a call after one more failure.
\<close>

theorem is_open_changes_failure_count:
  "fst (is_open tripped_breaker ''odds_api_wnba'' 65) = False \<and>
   failure_counts tripped_breaker ''odds_api_wnba'' = Some 5 \<and>
   failure_counts (snd (is_open tripped_breaker ''odds_api_wnba'' 65)) ''odds_api_wnba'' = Some 0 \<and>
   fst (is_open (snd (is_open tripped_breaker ''odds_api_wnba'' 65)) ''odds_api_wnba'' 65) = False \<and>
   fst (is_open (record_failure (snd (is_open tripped_breaker ''odds_api_wnba'' 65))
                   ''odds_api_wnba'' 66) ''odds_api_wnba'' 67) = False"
  by (simp add: is_open_def tripped_facts record_failure_def Let_def)

section \<open>The quota manager\<close>

lemma reset_windows_same: "same_window q now \<Longrightarrow> reset_windows q now = q"
  by (simp add: same_window_def reset_windows_def)

lemma consume_quota_window:
  "same_window q now \<Longrightarrow> same_window (snd (consume_quota q cost now)) now'
     \<longleftrightarrow> same_window q now'"
  by (simp add: consume_quota_def reset_windows_same Let_def same_window_def)

lemma consume_quota_within:
  assumes "within_limits q" and "same_window q now"
  shows "within_limits (snd (consume_quota q cost now))"
  using assms
  by (auto simp: consume_quota_def reset_windows_same Let_def within_limits_def)

lemma consume_all_within:
  assumes "within_limits q" and "\<forall>(cost, now) \<in> set calls. same_window q now"
  shows "within_limits (consume_all q calls)"
  using assms
proof (induction calls arbitrary: q)
  case Nil
  then show ?case by simp
next
  case (Cons call calls)
  obtain cost now where call: "call = (cost, now)" by (cases call)
  from Cons.prems call have w: "same_window q now" by simp
  have "within_limits (snd (consume_quota q cost now))"
    by (rule consume_quota_within[OF Cons.prems(1) w])
  moreover have "\<forall>(cost', now') \<in> set calls. same_window (snd (consume_quota q cost now)) now'"
    using Cons.prems(2) w by (auto simp: consume_quota_window)
  ultimately show ?case
    using Cons.IH call by simp
qed

text \<open>
  C4, as the code has it. Let \<open>c\<close> be the cost charged (the cost given, or
  \<open>per_request_cost\<close> when the cost is omitted or zero) and \<open>q2\<close> the manager after the
  resets of a window that rolled over (\<open>q2 = q\<close> within the window). The call raises
  the daily error exactly when \<open>daily_usage q2 + c\<close> exceeds the daily limit, and the
  hourly error exactly when the daily check passes and \<open>hourly_usage q2 + c\<close> exceeds
  the hourly limit. A call that raises leaves the manager at \<open>q2\<close>; a call that returns
  adds \<open>c\<close> to both counters of \<open>q2\<close>. Starting within its limits, a manager is within
  its limits after any sequence of calls made within its window.
\<close>

theorem consume_quota_checks:
  "(let c = effective_cost q cost; q2 = reset_windows q now;
        r = consume_quota q cost now
    in (fst r = Some DailyQuotaExceeded \<longleftrightarrow> daily_usage q2 + c > daily_limit q) \<and>
       (fst r = Some HourlyQuotaExceeded \<longleftrightarrow>
          \<not> daily_usage q2 + c > daily_limit q \<and> hourly_usage q2 + c > hourly_limit q) \<and>
       (fst r \<noteq> None \<longrightarrow> snd r = q2) \<and>
       (fst r = None \<longrightarrow>
          snd r = q2\<lparr>daily_usage := daily_usage q2 + c, hourly_usage := hourly_usage q2 + c\<rparr>) \<and>
       (same_window q now \<longrightarrow> q2 = q) \<and>
       (\<forall>calls. within_limits q \<and> (\<forall>(cost', now') \<in> set calls. same_window q now')
           \<longrightarrow> within_limits (consume_all q calls)))"
proof -
  have lim: "daily_limit (reset_windows q now) = daily_limit q"
    "hourly_limit (reset_windows q now) = hourly_limit q"
    by (auto simp: reset_windows_def Let_def split: prod.splits)
  show ?thesis
    unfolding Let_def
    by (intro conjI allI impI)
       (auto simp: consume_quota_def Let_def lim reset_windows_same consume_all_within
             split: if_splits)
qed

text \<open>Limits 100 a day and 10 an hour: a cost of 5 is charged, then a cost of 100 is
  refused and changes nothing, and four calls in the window stay within the limits.\<close>

theorem consume_quota_checks_witness:
  "consume_quota (new_quota_manager 100 10 1 (0, 0)) (Some 5) (0, 0) =
     (None, (new_quota_manager 100 10 1 (0, 0))\<lparr>daily_usage := 5, hourly_usage := 5\<rparr>) \<and>
   consume_quota ((new_quota_manager 100 10 1 (0, 0))\<lparr>daily_usage := 5, hourly_usage := 5\<rparr>)
       (Some 100) (0, 0) =
     (Some DailyQuotaExceeded,
      (new_quota_manager 100 10 1 (0, 0))\<lparr>daily_usage := 5, hourly_usage := 5\<rparr>) \<and>
   within_limits
     (consume_all (new_quota_manager 100 10 1 (0, 0))
        [(Some 5, (0, 0)), (Some 100, (0, 0)), (Some 5, (0, 0)), (None, (0, 0))])"
proof -
  let ?q = "new_quota_manager 100 10 1 (0, 0)"
  let ?calls = "[(Some 5, (0, 0)), (Some 100, (0, 0)), (Some 5, (0, 0)), (None, (0, 0))]"
  have w: "within_limits ?q \<and> (\<forall>(cost', now') \<in> set ?calls. same_window ?q now')"
    by (simp add: within_limits_def same_window_def new_quota_manager_def)
  from consume_quota_checks[of ?q "Some 5" "(0, 0)"] w
  have "within_limits (consume_all ?q ?calls)"
    unfolding Let_def by blast
  then show ?thesis
    by (simp add: consume_quota_def reset_windows_def effective_cost_def
          new_quota_manager_def Let_def)
qed

text \<open>
  The claim as stated fails. With the daily budget used up, a call of cost 0 is
  charged \<open>per_request_cost\<close> and raises, though \<open>used + 0\<close> exceeds no limit; and a call
  in the next hour raises the daily error after it has reset the hourly counter from
  50 to 0.
\<close>

theorem consume_quota_zero_cost_and_rollover:
  "fst (consume_quota exhausted_quota (Some 0) (0, 10)) = Some DailyQuotaExceeded \<and>
   \<not> daily_usage exhausted_quota + 0 > daily_limit exhausted_quota \<and>
   \<not> hourly_usage exhausted_quota + 0 > hourly_limit exhausted_quota \<and>
   fst (consume_quota exhausted_quota (Some 1) (0, 11)) = Some DailyQuotaExceeded \<and>
   hourly_usage exhausted_quota = 50 \<and>
   hourly_usage (snd (consume_quota exhausted_quota (Some 1) (0, 11))) = 0"
  by (simp add: consume_quota_def reset_windows_def effective_cost_def
        exhausted_quota_def Let_def)

section \<open>Moneyline detection\<close>



lemma confidence_returns: "\<exists>c. calculate_confidence_score sel mt = Inr c"
  unfolding calculate_confidence_score_def by (rule try_except_returns)





lemma np_std_example: "np_std [11 / 5, 3] = 2 / 5"
proof -
  have "sqrt (4 / 25) = 2 / 5"
    by (rule real_sqrt_unique) (simp_all add: power2_eq_square)
  then show ?thesis
    by (simp add: np_std_def Let_def power2_eq_square)
qed





subsection \<open>The confidence score of two outcomes\<close>

text \<open>
  With at most two outcomes there are at most two bookmakers, so the bookmaker factor
  is at most 0.7; the diversity factor is at most 1 and the prior of the \<open>h2h\<close> market
  is 0.85: the score is at most 0.595, and a detector whose confidence threshold is
  above 0.595 returns nothing for a two-outcome moneyline.
\<close>

lemma np_std_nonneg: "np_std xs \<ge> 0"
  unfolding np_std_def Let_def
  by (intro real_sqrt_ge_zero divide_nonneg_nonneg sum_list_nonneg) auto

lemma two_outcome_confidence_bound:
  assumes "length sel \<le> 2" and "calculate_confidence_score sel ''h2h'' = Inr c"
  shows "c \<le> 595 / 1000"
proof (cases "list_all (\<lambda>(k, info). hashable (bookmaker info)) sel")
  case False
  with assms(2) show ?thesis
    by (simp add: calculate_confidence_score_def confidence_body_def Let_def)
next
  case True
  let ?n = "length (remdups (map (\<lambda>(k, info). bookmaker info) sel))"
  let ?bf = "min 1 (5 / 10 + real ?n * (1 / 10))"
  let ?std = "if length (map (\<lambda>(k, info). price info) sel) > 1
              then np_std (map (\<lambda>(k, info). price info) sel) else 0"
  let ?df = "min 1 (7 / 10 + ?std * (1 / 10))"
  have "?n \<le> length sel"
    using length_remdups_leq[of "map (\<lambda>(k, info). bookmaker info) sel"] by simp
  with assms(1) have n: "real ?n \<le> 2" by simp
  then have bf: "?bf \<le> 7 / 10" by simp
  have bf0: "0 \<le> ?bf" by simp
  have std: "0 \<le> ?std" using np_std_nonneg by simp
  have df: "?df \<le> 1" by simp
  have df0: "0 \<le> ?df" using std by simp
  have "?bf * ?df \<le> 7 / 10 * 1"
    by (rule mult_mono[OF bf df _ df0]) simp
  then have prod: "85 / 100 * ?bf * ?df \<le> 595 / 1000" by simp
  from assms(2) True have c: "c = min 1 (max 0 (85 / 100 * ?bf * ?df))"
    by (simp add: calculate_confidence_score_def confidence_body_def bayesian_priors_def Let_def)
  from prod show ?thesis unfolding c by simp
qed

lemma two_outcome_moneyline_blocked:
  assumes best: "find_best_odds g ''h2h'' = Inr sel" and two: "length sel \<le> 2"
    and thr: "confidence_threshold eng > 595 / 1000"
  shows "detect_moneyline_arbitrage eng now g = Inr []"
proof -
  obtain c where c: "calculate_confidence_score sel ''h2h'' = Inr c"
    using confidence_returns by blast
  from two_outcome_confidence_bound[OF two c] thr have low: "\<not> c \<ge> confidence_threshold eng"
    by simp
  show ?thesis
  proof (cases "implied_total sel")
    case (Inl e)
    then show ?thesis
      by (simp add: detect_moneyline_arbitrage_def moneyline_body_def best emit_if_arbitrage_def)
  next
    case (Inr p)
    with low c show ?thesis
      by (simp add: detect_moneyline_arbitrage_def moneyline_body_def best emit_if_arbitrage_def
            Let_def)
  qed
qed

lemma arbitrage_game_best_odds:
  "find_best_odds arbitrage_game ''h2h'' = Inr arbitrage_best_odds"
  by (simp add: arbitrage_game_def arbitrage_best_odds_def mk_defs find_best_odds_defs)

lemma arbitrage_confidence:
  "calculate_confidence_score arbitrage_best_odds ''h2h'' = Inr (4403 / 10000)"
  by (simp add: calculate_confidence_score_def confidence_body_def bayesian_priors_def
        arbitrage_best_odds_def np_std_example Let_def)

text \<open>
  C1. The detector is to return an opportunity exactly when the best odds have two
  outcomes or more and \<open>p < 1\<close>, with the margin \<open>(1 - p) * 100\<close>. On the game of the test
  suite's fixture the best odds are Team A at 2.20 and Team B at 3.00, two outcomes
  with \<open>p = 26/33 < 1\<close> and a margin of about 21.2%, above the margin threshold of the
  engine; yet the detector returns the empty list, with the engine of the test suite
  and with the default engine alike: the confidence score is 0.4403, below the
  confidence threshold of 0.7.
\<close>

theorem moneyline_misses_clear_arbitrage:
  "find_best_odds arbitrage_game ''h2h'' = Inr arbitrage_best_odds \<and>
   length arbitrage_best_odds = 2 \<and>
   implied_total arbitrage_best_odds = Inr (26 / 33) \<and>
   (26 / 33 :: real) < 1 \<and>
   min_profit_threshold fixture_engine \<le> (1 - 26 / 33) * 100 \<and>
   calculate_confidence_score arbitrage_best_odds ''h2h'' = Inr (4403 / 10000) \<and>
   detect_moneyline_arbitrage fixture_engine ''t'' arbitrage_game = Inr [] \<and>
   detect_moneyline_arbitrage default_engine ''t'' arbitrage_game = Inr []"
proof -
  have p: "implied_total arbitrage_best_odds = Inr (26 / 33)"
    by (simp add: implied_total_def arbitrage_best_odds_def)
  have two: "length arbitrage_best_odds \<le> 2" by (simp add: arbitrage_best_odds_def)
  have "detect_moneyline_arbitrage fixture_engine ''t'' arbitrage_game = Inr []"
    by (rule two_outcome_moneyline_blocked[OF arbitrage_game_best_odds two])
       (simp add: fixture_engine_def)
  moreover have "detect_moneyline_arbitrage default_engine ''t'' arbitrage_game = Inr []"
    by (rule two_outcome_moneyline_blocked[OF arbitrage_game_best_odds two])
       (simp add: default_engine_def)
  ultimately show ?thesis
    using p arbitrage_game_best_odds arbitrage_confidence
    by (simp add: fixture_engine_def arbitrage_best_odds_def)
qed


section \<open>The prices of the best odds\<close>




















section \<open>Optimal stakes\<close>

lemma update_fresh: "k \<notin> fst ` set al \<Longrightarrow> AList.update k v al = al @ [(k, v)]"
  by (induction al) auto

lemma price_of_py_odds_info [simp]:
  "py_subscript (py_odds_info info) ''price'' = Inr (PNum (price info))"
  by (simp add: py_odds_info_def)

lemma implied_probs_loop:
  assumes "distinct (map fst sel)" and "\<forall>(k, info) \<in> set sel. price info \<noteq> 0"
    and "fst ` set acc \<inter> fst ` set sel = {}"
  shows "for_each (\<lambda>acc (outcome, info).
              ebind (py_subscript info ''price'') (\<lambda>pr.
              ebind (py_recip pr) (\<lambda>ip. Inr (AList.update outcome ip acc))))
           (map (\<lambda>(k, info). (k, py_odds_info info)) sel) acc
         = Inr (acc @ map (\<lambda>(k, info). (k, 1 / price info)) sel)"
  using assms
proof (induction sel arbitrary: acc)
  case Nil
  then show ?case by simp
next
  case (Cons x sel)
  obtain k info where x: "x = (k, info)" by (cases x)
  from Cons.prems x have fresh: "k \<notin> fst ` set acc" and nz: "price info \<noteq> 0" by auto
  have d: "distinct (map fst sel)" and r: "\<forall>(k, info) \<in> set sel. price info \<noteq> 0"
    using Cons.prems by auto
  have disj: "fst ` set (acc @ [(k, 1 / price info)]) \<inter> fst ` set sel = {}"
    using Cons.prems x by auto
  show ?case
    using Cons.IH[OF d r disj] nz
    by (simp add: x update_fresh[OF fresh])
qed

lemma stakes_loop:
  assumes "distinct (map fst xs)" and "fst ` set acc \<inter> fst ` set xs = {}"
  shows "for_each (\<lambda>stakes (outcome, ip). Inr (AList.update outcome (h ip) stakes)) xs acc
         = Inr (acc @ map (\<lambda>(k, ip). (k, h ip)) xs)"
  using assms
proof (induction xs arbitrary: acc)
  case Nil
  then show ?case by simp
next
  case (Cons x xs)
  obtain k ip where x: "x = (k, ip)" by (cases x)
  from Cons.prems x have fresh: "k \<notin> fst ` set acc" by auto
  have d: "distinct (map fst xs)" using Cons.prems by auto
  have disj: "fst ` set (acc @ [(k, h ip)]) \<inter> fst ` set xs = {}"
    using Cons.prems x by auto
  show ?case
    using Cons.IH[OF d disj]
    by (simp add: x update_fresh[OF fresh])
qed

lemma implied_sum_pos:
  assumes "sel \<noteq> []" and "\<forall>(k, info) \<in> set sel. price info > 0"
  shows "implied_sum sel > 0"
  using assms
proof (induction sel)
  case Nil
  then show ?case by simp
next
  case (Cons x sel)
  obtain k info where x: "x = (k, info)" by (cases x)
  from Cons.prems x have p: "1 / price info > 0" by simp
  show ?case
  proof (cases "sel = []")
    case True
    with p x show ?thesis by (simp add: implied_sum_def)
  next
    case False
    with Cons have "implied_sum sel > 0" by simp
    with p x show ?thesis by (simp add: implied_sum_def add_pos_pos)
  qed
qed

lemma sum_scaled:
  "sum_list (map snd (map (\<lambda>(k, info). (k, c * (1 / price info / p))) sel))
   = c * (implied_sum sel / p)"
  by (induction sel) (auto simp: implied_sum_def algebra_simps add_divide_distrib)

lemma map_of_scaled:
  assumes "distinct (map fst sel)" and "(k, info) \<in> set sel"
  shows "map_of (map (\<lambda>(k, info). (k, f info)) sel) k = Some (f info)"
  using assms by (induction sel) (auto simp: rev_image_eqI)


text \<open>
  C2, as the code has it. For best odds with at least one outcome, all prices
  positive and no outcome named like one of the three summary keys, a bankroll
  \<open>B > 0\<close> and a stake fraction \<open>max_stake_percentage > 0\<close>, \<open>calculate_optimal_stakes\<close>
  returns a dictionary with a stake for every outcome such that stake times price
  is \<open>B * max_stake_percentage\<close> for each of them; the stakes sum to
  \<open>B * max_stake_percentage * p\<close>, which the dictionary holds as
  \<open>total_investment\<close>, and to at most \<open>B * max_stake_percentage\<close> whenever \<open>p \<le> 1\<close>.
\<close>

theorem optimal_stakes_flat_payout:
  assumes dist: "distinct (map fst sel)"
    and pos: "\<forall>(k, info) \<in> set sel. price info > 0"
    and names: "\<forall>(k, info) \<in> set sel. k \<notin> summary_keys"
    and bank: "bankroll > 0" and frac: "max_stake_percentage eng > 0"
    and nonempty: "sel \<noteq> []"
  shows "\<exists>res. calculate_optimal_stakes eng (py_best_odds sel) bankroll = Inr res \<and>
           (\<forall>(k, info) \<in> set sel. \<exists>stake. map_of res k = Some stake \<and>
               stake * price info = bankroll * max_stake_percentage eng) \<and>
           map_of res (PStr ''total_investment'') = Some (stake_total res sel) \<and>
           stake_total res sel = bankroll * max_stake_percentage eng * implied_sum sel \<and>
           (implied_sum sel \<le> 1 \<longrightarrow>
              stake_total res sel \<le> bankroll * max_stake_percentage eng)"
proof -
  let ?m = "max_stake_percentage eng"
  let ?p = "implied_sum sel"
  let ?opt = "bankroll * ?m * ?p"
  let ?items = "map (\<lambda>(k, info). (k, py_odds_info info)) sel"
  let ?ips = "map (\<lambda>(k, info). (k, 1 / price info)) sel"
  let ?stakes = "map (\<lambda>(k, info). (k, ?opt * (1 / price info / ?p))) sel"
  have p: "?p > 0" by (rule implied_sum_pos[OF nonempty pos])
  have bm: "bankroll * ?m > 0" using bank frac by simp
  have nz: "\<forall>(k, info) \<in> set sel. price info \<noteq> 0" using pos by fastforce
  have loop1: "for_each (\<lambda>acc (outcome, info).
              ebind (py_subscript info ''price'') (\<lambda>pr.
              ebind (py_recip pr) (\<lambda>ip. Inr (AList.update outcome ip acc)))) ?items [] = Inr ?ips"
    using implied_probs_loop[OF dist nz, of "[]"] by simp
  have tot: "sum_list (map snd ?ips) = ?p"
    by (induction sel) (auto simp: implied_sum_def)
  have dist': "distinct (map fst ?ips)"
    using dist by (simp add: comp_def case_prod_unfold)
  have stakes_eq: "map (\<lambda>(k, ip). (k, ?opt * (ip / ?p))) ?ips = ?stakes"
    by (simp add: comp_def case_prod_unfold)
  have loop2: "for_each (\<lambda>stakes (outcome, ip). Inr (AList.update outcome (?opt * (ip / ?p)) stakes))
                 ?ips [] = Inr ?stakes"
    using stakes_loop[OF dist', of "[]" "\<lambda>ip. ?opt * (ip / ?p)"] stakes_eq by simp
  have ti: "sum_list (map snd ?stakes) = ?opt"
    using sum_scaled[of ?opt ?p sel] p by simp
  obtain k0 i0 sel' where sel: "sel = (k0, i0) # sel'"
    using nonempty by (cases sel) auto
  have p0: "price i0 > 0" using pos sel by simp
  have st0: "map_of ?stakes k0 = Some (?opt * (1 / price i0 / ?p))"
    by (rule map_of_scaled[OF dist]) (simp add: sel)
  have keys: "fst ` set ?stakes = fst ` set sel"
    by (force simp: image_iff)
  have fresh: "PStr ''total_investment'' \<notin> fst ` set sel"
    "PStr ''guaranteed_profit'' \<notin> fst ` set sel"
    "PStr ''profit_percentage'' \<notin> fst ` set sel"
    using names by (auto simp: summary_keys_def)
  define gp where "gp = ?opt * (1 / price i0 / ?p) * price i0 - ?opt"
  define res where "res = AList.update (PStr ''profit_percentage'') (gp / ?opt * 100)
                    (AList.update (PStr ''guaranteed_profit'') gp
                    (AList.update (PStr ''total_investment'') ?opt ?stakes))"
  have optnz: "?opt \<noteq> 0" using bank frac p by simp
  have loop2_if: "for_each (\<lambda>stakes (outcome, ip).
                    if ?p = 0 then Inl ZeroDivisionError
                    else Inr (AList.update outcome (?opt * (ip / ?p)) stakes))
                 ?ips [] = Inr ?stakes"
    using loop2 p by simp
  have items_hd: "?items = (k0, py_odds_info i0) # map (\<lambda>(k, info). (k, py_odds_info info)) sel'"
    by (simp add: sel)
  have body: "stakes_body eng (py_best_odds sel) bankroll = Inr res"
  proof -
    have "stakes_body eng (py_best_odds sel) bankroll =
      (case ?items of
          [] \<Rightarrow> Inl StopIteration
        | (sample_outcome, sample_info) # rest \<Rightarrow>
            ebind (py_subscript sample_info ''price'') (\<lambda>sample_odds.
              (case map_of ?stakes sample_outcome of
                 None \<Rightarrow> Inl KeyError
               | Some st \<Rightarrow>
                   (case sample_odds of
                      PNum so \<Rightarrow>
                        if ?opt = 0 then Inl ZeroDivisionError
                        else Inr (AList.update (PStr ''profit_percentage'')
                                    ((st * so - ?opt) / ?opt * 100)
                                 (AList.update (PStr ''guaranteed_profit'') (st * so - ?opt)
                                 (AList.update (PStr ''total_investment'') ?opt ?stakes)))
                    | _ \<Rightarrow> Inl TypeError))))"
      unfolding stakes_body_def py_best_odds_def
      by (simp only: py_items.simps ebind_Inr loop1 Let_def tot loop2_if ti)
    also have "\<dots> = Inr res"
      unfolding items_hd
      by (simp only: list.case prod.case price_of_py_odds_info ebind_Inr st0 option.case
            pyval.case optnz if_False res_def gp_def)
    finally show ?thesis .
  qed
  have run: "calculate_optimal_stakes eng (py_best_odds sel) bankroll = Inr res"
    by (simp add: calculate_optimal_stakes_def body)
  have lookup: "map_of res k = map_of ?stakes k" if "(k, info) \<in> set sel" for k info
  proof -
    from that names have "k \<notin> summary_keys" by auto
    then show ?thesis
      by (simp add: res_def update_conv' summary_keys_def)
  qed
  have flat: "\<exists>stake. map_of res k = Some stake \<and> stake * price info = bankroll * ?m"
    if mem: "(k, info) \<in> set sel" for k info
  proof -
    have "map_of ?stakes k = Some (?opt * (1 / price info / ?p))"
      by (rule map_of_scaled[OF dist mem])
    moreover have "price info > 0" using pos mem by auto
    ultimately show ?thesis
      using lookup[OF mem] p by simp
  qed
  have total: "map_of res (PStr ''total_investment'') = Some ?opt"
    by (simp add: res_def update_conv')
  have st: "stake_total res sel = ?opt"
  proof -
    have "map (\<lambda>(k, info). case map_of res k of None \<Rightarrow> 0 | Some s \<Rightarrow> s) sel
          = map (\<lambda>(k, info). ?opt * (1 / price info / ?p)) sel"
    proof (rule map_cong[OF refl])
      fix x assume x: "x \<in> set sel"
      obtain k info where xe: "x = (k, info)" by (cases x)
      with x have mem: "(k, info) \<in> set sel" by simp
      have "map_of res k = Some (?opt * (1 / price info / ?p))"
        using lookup[OF mem] map_of_scaled[OF dist mem, of "\<lambda>info. ?opt * (1 / price info / ?p)"]
        by simp
      then show "(case x of (k, info) \<Rightarrow> case map_of res k of None \<Rightarrow> 0 | Some s \<Rightarrow> s)
                 = (case x of (k, info) \<Rightarrow> ?opt * (1 / price info / ?p))"
        by (simp add: xe)
    qed
    then have "stake_total res sel
               = sum_list (map (\<lambda>(k, info). ?opt * (1 / price info / ?p)) sel)"
      unfolding stake_total_def by (rule arg_cong)
    also have "\<dots> = sum_list (map snd ?stakes)"
      by (simp add: comp_def case_prod_unfold)
    finally show ?thesis using ti by simp
  qed
  have bound: "stake_total res sel \<le> bankroll * ?m" if "?p \<le> 1"
  proof -
    have "bankroll * ?m * ?p \<le> bankroll * ?m * 1"
      using that bm by (intro mult_left_mono) simp_all
    with st show ?thesis by simp
  qed
  from run flat total st bound show ?thesis
    by (intro exI[of _ res]) auto
qed


lemmas stakes_defs =
  calculate_optimal_stakes_def stakes_body_def py_best_odds_def py_odds_info_def


text \<open>A bankroll of 1000 at the default fraction 0.95: both outcomes pay 950.\<close>

theorem optimal_stakes_flat_payout_witness:
  "\<exists>res. calculate_optimal_stakes default_engine (py_best_odds example_best_odds) 1000 = Inr res \<and>
     (\<exists>stake. map_of res (PStr ''TeamX'') = Some stake \<and> stake * (22 / 10) = 950) \<and>
     (\<exists>stake. map_of res (PStr ''TeamY'') = Some stake \<and> stake * 3 = 950) \<and>
     stake_total res example_best_odds = 24700 / 33 \<and>
     stake_total res example_best_odds \<le> 950"
proof -
  have h: "distinct (map fst example_best_odds)"
    "\<forall>(k, info) \<in> set example_best_odds. price info > 0"
    "\<forall>(k, info) \<in> set example_best_odds. k \<notin> summary_keys"
    "(1000::real) > 0" "max_stake_percentage default_engine > 0"
    "example_best_odds \<noteq> []"
    by (simp_all add: example_best_odds_def summary_keys_def default_engine_def)
  have p: "implied_sum example_best_odds = 26 / 33"
    by (simp add: implied_sum_def example_best_odds_def)
  from optimal_stakes_flat_payout[OF h] obtain res where
    r: "calculate_optimal_stakes default_engine (py_best_odds example_best_odds) 1000 = Inr res"
    and flat: "\<forall>(k, info) \<in> set example_best_odds. \<exists>stake. map_of res k = Some stake \<and>
               stake * price info = 1000 * max_stake_percentage default_engine"
    and tot: "stake_total res example_best_odds
               = 1000 * max_stake_percentage default_engine * implied_sum example_best_odds"
    and bound: "implied_sum example_best_odds \<le> 1 \<longrightarrow>
              stake_total res example_best_odds \<le> 1000 * max_stake_percentage default_engine"
    by blast
  from flat have "(\<exists>stake. map_of res (PStr ''TeamX'') = Some stake \<and> stake * (22 / 10) = 950) \<and>
     (\<exists>stake. map_of res (PStr ''TeamY'') = Some stake \<and> stake * 3 = 950)"
    by (simp add: example_best_odds_def default_engine_def)
  moreover from tot have "stake_total res example_best_odds = 24700 / 33"
    by (simp add: p default_engine_def)
  moreover from bound have "stake_total res example_best_odds \<le> 950"
    by (simp add: p default_engine_def)
  ultimately show ?thesis using r by blast
qed


text \<open>
  The claim as stated fails. With a bankroll of 0 the total investment is 0, the
  profit percentage divides by it, and the empty dictionary is returned: no outcome
  has a stake. And an outcome named \<open>total_investment\<close> has its stake of 475
  overwritten by the total of 950, so the two payouts differ.
\<close>

theorem optimal_stakes_zero_bankroll_empty:
  "stakes_body default_engine (py_best_odds example_best_odds) 0 = Inl ZeroDivisionError \<and>
   calculate_optimal_stakes default_engine (py_best_odds example_best_odds) 0 = Inr [] \<and>
   calculate_optimal_stakes default_engine (py_best_odds summary_named_best_odds) 1000
     = Inr [(PStr ''total_investment'', 950), (PStr ''TeamY'', 475),
            (PStr ''guaranteed_profit'', 0), (PStr ''profit_percentage'', 0)] \<and>
   (950::real) * 2 \<noteq> 475 * 2"
  by (simp add: stakes_defs example_best_odds_def summary_named_best_odds_def
        default_engine_def Let_def)


section \<open>No exception leaves the public operations\<close>

lemma for_each_fails:
  assumes "x \<in> set xs" and "\<And>s. \<exists>e. f s x = Inl e"
  shows "\<exists>e. for_each f xs s = Inl e"
  using assms(1)
proof (induction xs arbitrary: s)
  case Nil
  then show ?case by simp
next
  case (Cons y ys)
  show ?case
  proof (cases "f s y")
    case (Inl e)
    then show ?thesis by simp
  next
    case (Inr s1)
    with assms(2)[of s] have "y \<noteq> x" by auto
    with Cons.prems have "x \<in> set ys" by simp
    from Cons.IH[OF this, of s1] Inr show ?thesis by simp
  qed
qed

lemma stakes_zero_price:
  assumes "(k, info) \<in> set kvs" and "py_subscript info ''price'' = Inr (PNum 0)"
  shows "\<exists>e. stakes_body eng (PDict kvs) bankroll = Inl e"
proof -
  let ?f = "\<lambda>acc (outcome, info).
              ebind (py_subscript info ''price'') (\<lambda>pr.
              ebind (py_recip pr) (\<lambda>ip. Inr (AList.update outcome ip acc)))"
  have "\<exists>e. ?f s (k, info) = Inl e" for s :: "(pyval \<times> real) list"
    using assms(2) by simp
  from for_each_fails[of "(k, info)" kvs ?f, OF assms(1) this]
  obtain e where "for_each ?f kvs [] = Inl e" by blast
  then show ?thesis
    by (simp add: stakes_body_def)
qed


text \<open>
  C10. For every engine and every input value, each of \<open>detect_moneyline_arbitrage\<close>,
  \<open>detect_spread_arbitrage\<close> and \<open>detect_totals_arbitrage\<close> returns a list, and the empty
  list whenever its body raises; \<open>calculate_optimal_stakes\<close> returns a dictionary, and
  the empty one whenever its body raises, as it does when some outcome's price is
  zero.
\<close>

theorem public_operations_never_raise:
  "(\<exists>r. detect_moneyline_arbitrage eng now game_data = Inr r) \<and>
   (\<forall>e. moneyline_body eng now game_data = Inl e \<longrightarrow>
        detect_moneyline_arbitrage eng now game_data = Inr []) \<and>
   (\<exists>r. detect_spread_arbitrage fmt eng now game_data = Inr r) \<and>
   (\<forall>e. spread_body fmt eng now game_data = Inl e \<longrightarrow>
        detect_spread_arbitrage fmt eng now game_data = Inr []) \<and>
   (\<exists>r. detect_totals_arbitrage eng now game_data = Inr r) \<and>
   (\<forall>e. totals_body eng now game_data = Inl e \<longrightarrow>
        detect_totals_arbitrage eng now game_data = Inr []) \<and>
   (\<exists>r. calculate_optimal_stakes eng opportunity_data bankroll = Inr r) \<and>
   (\<forall>e. stakes_body eng opportunity_data bankroll = Inl e \<longrightarrow>
        calculate_optimal_stakes eng opportunity_data bankroll = Inr []) \<and>
   (\<forall>kvs k info. opportunity_data = PDict kvs \<and> (k, info) \<in> set kvs \<and>
        py_subscript info ''price'' = Inr (PNum 0) \<longrightarrow>
        calculate_optimal_stakes eng opportunity_data bankroll = Inr [])"
proof -
  have z: "calculate_optimal_stakes eng opportunity_data bankroll = Inr []"
    if "opportunity_data = PDict kvs \<and> (k, info) \<in> set kvs \<and>
        py_subscript info ''price'' = Inr (PNum 0)" for kvs k info
  proof -
    from that stakes_zero_price[of k info kvs eng bankroll]
    obtain e where "stakes_body eng opportunity_data bankroll = Inl e" by blast
    then show ?thesis by (simp add: calculate_optimal_stakes_def)
  qed
  show ?thesis
    unfolding detect_moneyline_arbitrage_def detect_spread_arbitrage_def
      detect_totals_arbitrage_def
    apply (intro conjI allI impI try_except_returns)
    subgoal by simp
    subgoal by simp
    subgoal by simp
    subgoal unfolding calculate_optimal_stakes_def by (rule try_except_returns)
    subgoal by (simp add: calculate_optimal_stakes_def)
    subgoal for kvs k info by (rule z)
    done
qed


text \<open>
  Game data that is \<open>None\<close>, a list, a dictionary whose bookmakers are a number, a
  price that is a string: the bodies raise and the detectors return the empty list.
\<close>

theorem public_operations_never_raise_witness:
  "moneyline_body default_engine ''t'' PNone = Inl AttributeError \<and>
   detect_moneyline_arbitrage default_engine ''t'' PNone = Inr [] \<and>
   moneyline_body default_engine ''t'' string_price_game = Inl TypeError \<and>
   detect_moneyline_arbitrage default_engine ''t'' string_price_game = Inr [] \<and>
   spread_body null_format default_engine ''t'' (PList []) = Inl AttributeError \<and>
   detect_spread_arbitrage null_format default_engine ''t'' (PList []) = Inr [] \<and>
   totals_body default_engine ''t'' (PDict [(PStr ''bookmakers'', PNum 5)]) = Inl TypeError \<and>
   detect_totals_arbitrage default_engine ''t'' (PDict [(PStr ''bookmakers'', PNum 5)]) = Inr [] \<and>
   detect_totals_arbitrage default_engine ''t'' (PDict []) = Inr [] \<and>
   stakes_body default_engine (PDict [(PStr ''TeamX'', PDict [(PStr ''price'', PNum 0)])]) 1000
     = Inl ZeroDivisionError \<and>
   calculate_optimal_stakes default_engine
     (PDict [(PStr ''TeamX'', PDict [(PStr ''price'', PNum 0)])]) 1000 = Inr []"
proof -
  have b:
    "moneyline_body default_engine ''t'' PNone = Inl AttributeError"
    "moneyline_body default_engine ''t'' string_price_game = Inl TypeError"
    "spread_body null_format default_engine ''t'' (PList []) = Inl AttributeError"
    "totals_body default_engine ''t'' (PDict [(PStr ''bookmakers'', PNum 5)]) = Inl TypeError"
    "totals_body default_engine ''t'' (PDict []) = Inr []"
    "stakes_body default_engine (PDict [(PStr ''TeamX'', PDict [(PStr ''price'', PNum 0)])]) 1000
       = Inl ZeroDivisionError"
    by (simp_all add: moneyline_body_def spread_body_def totals_body_def stakes_body_def
          find_best_odds_defs string_price_game_def mk_defs
          group_spreads_by_point_value_def group_totals_by_point_value_def group_by_point_def)
  from public_operations_never_raise[of default_engine "''t''" PNone null_format
         "PDict [(PStr ''TeamX'', PDict [(PStr ''price'', PNum 0)])]" 1000]
    public_operations_never_raise[of default_engine "''t''" string_price_game null_format PNone 0]
    public_operations_never_raise[of default_engine "''t''" "PList []" null_format PNone 0]
    public_operations_never_raise[of default_engine "''t''" "PDict [(PStr ''bookmakers'', PNum 5)]"
       null_format PNone 0]
  show ?thesis
    by (simp add: b detect_totals_arbitrage_def)
qed

end
